theory Spec2Isabelle
  imports Main "HOL-Library.Word"
begin

unbundle bit_operations_syntax

section \<open>NetUMP session endpoint and UMP transcoder: the model\<close>

text \<open>
  The C and C++ sources are embedded function by function.  Conventions:
  \<^item> \<open>uint8_t\<close>, \<open>uint16_t\<close>, \<open>uint32_t\<close> are \<open>8 word\<close>, \<open>16 word\<close>, \<open>32 word\<close>;
    cursors and counters that the code keeps far below \<open>2^32\<close> are \<open>nat\<close>.
  \<^item> A fixed-size array that lives inside an object (\<open>FIFO[1024]\<close>, \<open>FECMemory[5]\<close>,
    \<open>ReceivedSequenceCounters[5]\<close>, \<open>SYSEXBuffer[256]\<close>) is a function from the index.
    A pointer argument (\<open>uint32_t*\<close>, \<open>unsigned char*\<close>) is the memory behind it, again a
    function from the index: reading it never fails, it returns what the memory holds.
  \<^item> A write past the end of an array is undefined behaviour in C.  The model makes it a
    value: the function returns \<open>Inl (OutOfBounds i)\<close> with the offending index \<open>i\<close>.
  \<^item> A word that the code stores as \<open>htonl x\<close> and later puts on the wire is represented
    by \<open>x\<close> itself: the wire carries the four bytes of \<open>x\<close>, most significant first.
\<close>

type_synonym u8 = "8 word"
type_synonym u16 = "16 word"
type_synonym u32 = "32 word"

datatype error = OutOfBounds nat

subsection \<open>UMP\_Transcoder.c: RebuildSYSEXFromUMP\<close>

definition MAX_SYSEX_SIZE :: nat where
  "MAX_SYSEX_SIZE = 256"

record TSYSEX7_Decoder_Control =
  UMPStarted :: u8
  SYSEXSize :: u32
  SYSEXBuffer :: "nat \<Rightarrow> u8"

text \<open>One assignment \<open>SYSEXBuffer[i] = v\<close>, with the array bound made explicit.\<close>

definition sysex_store :: "nat \<Rightarrow> u8 \<Rightarrow> (nat \<Rightarrow> u8) \<Rightarrow> error + (nat \<Rightarrow> u8)" where
  "sysex_store i v buf = (if i < MAX_SYSEX_SIZE then Inr (buf(i := v)) else Inl (OutOfBounds i))"

text \<open>A run of assignments in program order; the first out-of-bounds index stops it.\<close>

fun sysex_stores :: "(nat \<times> u8) list \<Rightarrow> (nat \<Rightarrow> u8) \<Rightarrow> error + (nat \<Rightarrow> u8)" where
  "sysex_stores [] buf = Inr buf"
| "sysex_stores ((i, v) # ws) buf =
     (case sysex_store i v buf of Inl e \<Rightarrow> Inl e | Inr buf' \<Rightarrow> sysex_stores ws buf')"

text \<open>The six data bytes of a 64-bit SYSEX7 packet, each masked with \<open>0x7F\<close>.\<close>

definition sysex_bytes :: "u32 \<Rightarrow> u32 \<Rightarrow> u8 list" where
  "sysex_bytes w0 w1 =
     [ucast (drop_bit 8 w0 AND 0x7F), ucast (w0 AND 0x7F),
      ucast (drop_bit 24 w1 AND 0x7F), ucast (drop_bit 16 w1 AND 0x7F),
      ucast (drop_bit 8 w1 AND 0x7F), ucast (w1 AND 0x7F)]"

text \<open>
  \<open>RebuildSYSEXFromUMP (SourceUMP[0], SourceUMP[1]) Decoder\<close> returns the function's
  return value and the decoder afterwards.  The End branch stores byte \<open>k\<close> of the packet
  only when \<open>Size\<close> reaches it (\<open>Size >= 1\<close>, ..., \<open>Size >= 5\<close>, \<open>Size == 6\<close>), then adds
  \<open>Size\<close> to \<open>SYSEXSize\<close> and stores \<open>0xF7\<close> at the new \<open>SYSEXSize\<close>.
\<close>

definition RebuildSYSEXFromUMP ::
  "u32 \<times> u32 \<Rightarrow> TSYSEX7_Decoder_Control \<Rightarrow> error + (u32 \<times> TSYSEX7_Decoder_Control)" where
  "RebuildSYSEXFromUMP SourceUMP Decoder =
    (let w0 = fst SourceUMP; w1 = snd SourceUMP;
         Size = drop_bit 16 w0 AND 0x0F;
         bs = sysex_bytes w0 w1;
         n = SYSEXSize Decoder
     in
     if w0 AND 0xF0000000 \<noteq> 0x30000000 then Inr (0, Decoder)
     else if w0 AND 0xF0F00000 = 0x30100000 then
       (case sysex_stores (zip [0, 1, 2, 3, 4, 5, 6] (0xF0 # bs)) (SYSEXBuffer Decoder) of
          Inl e \<Rightarrow> Inl e
        | Inr buf \<Rightarrow>
            Inr (0, Decoder\<lparr>SYSEXBuffer := buf, UMPStarted := 1, SYSEXSize := Size + 1\<rparr>))
     else if w0 AND 0xF0F00000 = 0x30200000 then
       (if UMPStarted Decoder = 0 then Inr (0, Decoder)
        else if unat n \<ge> MAX_SYSEX_SIZE - 6 then Inr (0, Decoder\<lparr>UMPStarted := 0\<rparr>)
        else
          (case sysex_stores
                  (zip [unat n, unat (n + 1), unat (n + 2), unat (n + 3), unat (n + 4),
                        unat (n + 5)] bs)
                  (SYSEXBuffer Decoder) of
             Inl e \<Rightarrow> Inl e
           | Inr buf \<Rightarrow> Inr (0, Decoder\<lparr>SYSEXBuffer := buf, SYSEXSize := n + Size\<rparr>)))
     else if w0 AND 0xF0F00000 = 0x30300000 then
       (if UMPStarted Decoder = 0 then Inr (0, Decoder)
        else
          (case sysex_stores
                  ((if Size \<ge> 1 then [(unat n, bs ! 0)] else []) @
                   (if Size \<ge> 2 then [(unat (n + 1), bs ! 1)] else []) @
                   (if Size \<ge> 3 then [(unat (n + 2), bs ! 2)] else []) @
                   (if Size \<ge> 4 then [(unat (n + 3), bs ! 3)] else []) @
                   (if Size \<ge> 5 then [(unat (n + 4), bs ! 4)] else []) @
                   (if Size = 6 then [(unat (n + 5), bs ! 5)] else []) @
                   [(unat (n + Size), 0xF7)])
                  (SYSEXBuffer Decoder) of
             Inl e \<Rightarrow> Inl e
           | Inr buf \<Rightarrow>
               Inr (n + Size + 1,
                    Decoder\<lparr>SYSEXBuffer := buf, SYSEXSize := n + Size, UMPStarted := 0\<rparr>)))
     else Inr (0, Decoder))"

text \<open>
  Feeding a stream of packets to one decoder, as a caller does: the return values in
  order and the decoder at the end, or the first out-of-bounds store.
\<close>

fun RebuildSYSEX_stream ::
  "(u32 \<times> u32) list \<Rightarrow> TSYSEX7_Decoder_Control \<Rightarrow> error + (u32 list \<times> TSYSEX7_Decoder_Control)"
  where
  "RebuildSYSEX_stream [] d = Inr ([], d)"
| "RebuildSYSEX_stream (p # ps) d =
     (case RebuildSYSEXFromUMP p d of
        Inl e \<Rightarrow> Inl e
      | Inr (r, d') \<Rightarrow>
          (case RebuildSYSEX_stream ps d' of
             Inl e \<Rightarrow> Inl e
           | Inr (rs, d'') \<Rightarrow> Inr (r # rs, d'')))"

subsection \<open>NetUMP.h: constants and data\<close>

abbreviation (input) MAX_UMP_ENDPOINT_NAME_LEN :: nat where "MAX_UMP_ENDPOINT_NAME_LEN \<equiv> 99"
abbreviation (input) MAX_UMP_PRODUCT_INSTANCE_ID_LEN :: nat where "MAX_UMP_PRODUCT_INSTANCE_ID_LEN \<equiv> 43"
abbreviation (input) UMP_SIGNATURE :: u32 where "UMP_SIGNATURE \<equiv> 0x4D494449"
abbreviation (input) UMP_FIFO_SIZE :: nat where "UMP_FIFO_SIZE \<equiv> 1024"
abbreviation (input) NUM_FEC_ENTRIES :: nat where "NUM_FEC_ENTRIES \<equiv> 5"
abbreviation (input) TIMEOUT_RESET :: int where "TIMEOUT_RESET \<equiv> 30000"
abbreviation (input) ERROR_CORRECTION_NONE :: nat where "ERROR_CORRECTION_NONE \<equiv> 0"
abbreviation (input) ERROR_CORRECTION_FEC :: nat where "ERROR_CORRECTION_FEC \<equiv> 1"

abbreviation (input) BYE_USER_TERMINATED :: u8 where "BYE_USER_TERMINATED \<equiv> 0x01"
abbreviation (input) BYE_TIMEOUT :: u8 where "BYE_TIMEOUT \<equiv> 0x04"
abbreviation (input) BYE_TOO_MANY_SESSIONS :: u8 where "BYE_TOO_MANY_SESSIONS \<equiv> 0x40"

abbreviation (input) INVITATION_COMMAND :: u8 where "INVITATION_COMMAND \<equiv> 0x01"
abbreviation (input) INVITATION_ACCEPTED_COMMAND :: u8 where "INVITATION_ACCEPTED_COMMAND \<equiv> 0x10"
abbreviation (input) PING_COMMAND :: u8 where "PING_COMMAND \<equiv> 0x20"
abbreviation (input) PING_REPLY_COMMAND :: u8 where "PING_REPLY_COMMAND \<equiv> 0x21"
abbreviation (input) SESSION_RESET_COMMAND :: u8 where "SESSION_RESET_COMMAND \<equiv> 0x82"
abbreviation (input) SESSION_RESET_REPLY_COMMAND :: u8 where "SESSION_RESET_REPLY_COMMAND \<equiv> 0x83"
abbreviation (input) BYE_COMMAND :: u8 where "BYE_COMMAND \<equiv> 0xF0"
abbreviation (input) UMP_DATA_COMMAND :: u8 where "UMP_DATA_COMMAND \<equiv> 0xFF"

text \<open>The session status values of NetUMP.cpp (\<open>#define SESSION_...\<close>).\<close>

datatype session_state =
  SESSION_CLOSED | SESSION_CLOSE | SESSION_INVITE | SESSION_WAIT_INVITE | SESSION_OPENED

record TUMP_FIFO =
  FIFO :: "nat \<Rightarrow> u32"
  ReadPtr :: nat
  WritePtr :: nat

text \<open>
  \<open>Packet\<close> holds the words of the slot from index 0 on.  Every read of a slot stops
  below \<open>Size\<close>, so only those words are kept.
\<close>

record TFEC_REGISTER =
  Filled :: bool
  Size :: nat
  Packet :: "u32 list"

text \<open>
  The members of \<open>class CNetUMPHandler\<close>.  \<open>UMPCallback\<close> records whether the callback
  pointer is non-null, \<open>UMPSocket\<close> whether the socket is open (not \<open>INVALID_SOCKET\<close>).
  \<open>EndpointName\<close> and \<open>ProductInstanceID\<close> are the C strings held in the two byte
  arrays, without the terminator.
\<close>

record CNetUMPHandler =
  UMPCallback :: bool
  ClientInstance :: nat
  UMP_FIFO_TO_NET :: TUMP_FIFO
  UMP_FIFO_FROM_NET :: TUMP_FIFO
  EndpointName :: string
  ProductInstanceID :: string
  RemoteIP :: u32
  RemoteUDPPort :: u16
  LocalUDPPort :: u16
  IsInitiatorNode :: bool
  SocketLocked :: bool
  UMPSequenceCounter :: u16
  LastReceivedUMPCounter :: u16
  PINGDelayCounter :: u32
  PINGIdCounter :: u32
  UMPSocket :: bool
  SessionState :: session_state
  SessionPartnerIP :: u32
  SessionPartnerPort :: u16
  ConnectionLost :: bool
  PeerClosedSession :: bool
  InviteCount :: u32
  TimeOutRemote :: int
  TimerRunning :: bool
  TimerEvent :: bool
  EventTime :: nat
  TimeCounter :: u32
  FECMemory :: "nat \<Rightarrow> TFEC_REGISTER"
  NextFECSlot :: nat
  ErrorCorrectionMode :: nat
  ReceivedSequenceCounters :: "nat \<Rightarrow> u16"

text \<open>
  What the endpoint does to the outside: a \<open>sendto\<close> with its destination, a call of the
  UMP callback with the message it points to, a \<open>SystemSleepMillis\<close>.  The session
  packets of NetUMP\_SessionProtocol.cpp are kept by command and fields, not byte by byte;
  a UMP data datagram is kept word by word, signature first.
\<close>

datatype packet =
    INVITATION string string
  | INVITATION_ACCEPTED string string
  | BYE u8
  | BYE_REPLY
  | PING u32
  | PING_REPLY u32
  | UMP_DATA "u32 list"

datatype event =
    SendTo u32 u16 packet
  | Callback "u32 list"
  | Sleep nat

text \<open>Size of UMP messages in words for each possible MT.\<close>

definition UMPSize :: "nat \<Rightarrow> nat" where
  "UMPSize MT = [1, 1, 1, 2, 2, 4, 1, 1, 2, 2, 2, 3, 3, 4, 4, 4] ! MT"

text \<open>The MT field of a UMP word: \<open>w >> 28\<close>.\<close>

definition MT_of :: "u32 \<Rightarrow> nat" where
  "MT_of w = unat (drop_bit 28 w)"

subsection \<open>NetUMP.cpp: construction and configuration\<close>

text \<open>\<open>ptr++; if (ptr >= UMP_FIFO_SIZE) ptr = 0;\<close>\<close>

definition fifo_next :: "nat \<Rightarrow> nat" where
  "fifo_next p = (if p + 1 \<ge> UMP_FIFO_SIZE then 0 else p + 1)"

definition ResetFECMemory :: "CNetUMPHandler \<Rightarrow> CNetUMPHandler" where
  "ResetFECMemory s =
     fold (\<lambda>Slot h. h\<lparr>FECMemory := (FECMemory h)(Slot := (FECMemory h Slot)\<lparr>Filled := False, Size := 0\<rparr>),
                       ReceivedSequenceCounters := (ReceivedSequenceCounters h)(Slot := 0xFFFF)\<rparr>)
          [0, 1, 2, 3, 4]
          (s\<lparr>UMPSequenceCounter := 0, NextFECSlot := 0\<rparr>)"

definition SelectErrorCorrectionMode :: "CNetUMPHandler \<Rightarrow> nat \<Rightarrow> CNetUMPHandler" where
  "SelectErrorCorrectionMode s CorrectionMethod = s\<lparr>ErrorCorrectionMode := CorrectionMethod\<rparr>"

text \<open>
  The constructor.  \<open>raw\<close> is the storage of the object before construction: the members
  the constructor does not assign (the FIFO contents, the FEC packets) keep what it holds.
\<close>

definition CNetUMPHandler_init :: "CNetUMPHandler \<Rightarrow> bool \<Rightarrow> nat \<Rightarrow> CNetUMPHandler" where
  "CNetUMPHandler_init raw CallbackFunc UserInstance =
     (let s1 = raw\<lparr>UMPSocket := False, SessionState := SESSION_CLOSED,
                    RemoteIP := 0, RemoteUDPPort := 0, LocalUDPPort := 0, SocketLocked := True,
                    EndpointName := ''NetUMP'', ProductInstanceID := ''DefaultID'',
                    SessionPartnerIP := 0, SessionPartnerPort := 0, IsInitiatorNode := True,
                    TimeOutRemote := TIMEOUT_RESET, InviteCount := 0,
                    ConnectionLost := False, PeerClosedSession := False,
                    LastReceivedUMPCounter := 0, PINGDelayCounter := 0, PINGIdCounter := 0\<rparr>;
          s2 = SelectErrorCorrectionMode (ResetFECMemory s1) ERROR_CORRECTION_FEC
      in s2\<lparr>UMP_FIFO_TO_NET := (UMP_FIFO_TO_NET s2)\<lparr>ReadPtr := 0, WritePtr := 0\<rparr>,
             UMP_FIFO_FROM_NET := (UMP_FIFO_FROM_NET s2)\<lparr>ReadPtr := 0, WritePtr := 0\<rparr>,
             TimeCounter := 0, TimerRunning := False, TimerEvent := False, EventTime := 0,
             UMPCallback := CallbackFunc, ClientInstance := UserInstance\<rparr>)"

text \<open>
  \<open>strlen\<close> and \<open>strcpy\<close> on the text behind a \<open>char*\<close>: the C string ends before the
  first zero byte.
\<close>

definition c_string :: "string \<Rightarrow> string" where
  "c_string p = takeWhile (\<lambda>c. c \<noteq> CHR 0x00) p"

definition strlen :: "string \<Rightarrow> nat" where
  "strlen p = length (c_string p)"

definition SetEndpointName :: "CNetUMPHandler \<Rightarrow> string \<Rightarrow> CNetUMPHandler" where
  "SetEndpointName s Name =
     (if strlen Name = 0 then s
      else if strlen Name \<ge> MAX_UMP_ENDPOINT_NAME_LEN - 1 then s
      else s\<lparr>EndpointName := c_string Name\<rparr>)"

definition SetProductInstanceID :: "CNetUMPHandler \<Rightarrow> string \<Rightarrow> CNetUMPHandler" where
  "SetProductInstanceID s PIID =
     (if strlen PIID = 0 then s
      else if strlen PIID \<ge> MAX_UMP_PRODUCT_INSTANCE_ID_LEN then s
      else s\<lparr>ProductInstanceID := c_string PIID\<rparr>)"

definition SetCallback :: "CNetUMPHandler \<Rightarrow> bool \<Rightarrow> nat \<Rightarrow> CNetUMPHandler" where
  "SetCallback s CallbackFunc UserInstance =
     (let SocketState = SocketLocked s;
          s1 = s\<lparr>SocketLocked := False\<rparr>;
          s2 = s1\<lparr>ClientInstance := UserInstance\<rparr>;
          s3 = s2\<lparr>UMPCallback := CallbackFunc\<rparr>
      in s3\<lparr>SocketLocked := SocketState\<rparr>)"

definition PrepareTimerEvent :: "CNetUMPHandler \<Rightarrow> nat \<Rightarrow> CNetUMPHandler" where
  "PrepareTimerEvent s TimeToWait =
     s\<lparr>TimerEvent := False, EventTime := TimeToWait, TimerRunning := True\<rparr>"

definition CloseSockets :: "CNetUMPHandler \<Rightarrow> CNetUMPHandler" where
  "CloseSockets s = (if UMPSocket s then s\<lparr>UMPSocket := False\<rparr> else s)"

text \<open>
  \<open>InitiateSession\<close>; \<open>SocketOK\<close> is what \<open>CreateUDPSocket\<close> answers, and the socket is
  open afterwards exactly when it answers true.
\<close>

definition InitiateSession ::
  "CNetUMPHandler \<Rightarrow> u32 \<Rightarrow> u16 \<Rightarrow> u16 \<Rightarrow> bool \<Rightarrow> bool \<Rightarrow> int \<times> CNetUMPHandler" where
  "InitiateSession s DestIP DestPort LocalPort IsInitiator SocketOK =
     (let s1 = (CloseSockets s)\<lparr>RemoteIP := DestIP, RemoteUDPPort := DestPort,
                                 LocalUDPPort := LocalPort, UMPSocket := SocketOK\<rparr>
      in if \<not> SocketOK then (- 1, s1)
         else
           let s2 = s1\<lparr>ConnectionLost := False, InviteCount := 0, TimeOutRemote := TIMEOUT_RESET,
                        UMPSequenceCounter := 0, PINGDelayCounter := 0, TimerRunning := False,
                        IsInitiatorNode := IsInitiator\<rparr>;
               s3 = (if \<not> IsInitiator then s2\<lparr>SessionState := SESSION_WAIT_INVITE\<rparr>
                     else s2\<lparr>SessionState := SESSION_INVITE,
                             SessionPartnerIP := RemoteIP s2,
                             SessionPartnerPort := RemoteUDPPort s2\<rparr>)
           in (0, PrepareTimerEvent (s3\<lparr>SocketLocked := False\<rparr>) 1))"

definition CloseSession :: "CNetUMPHandler \<Rightarrow> event list \<times> CNetUMPHandler" where
  "CloseSession s =
     (if SessionState s = SESSION_OPENED then
        ([SendTo (SessionPartnerIP s) (SessionPartnerPort s) (BYE BYE_USER_TERMINATED), Sleep 50],
         s\<lparr>SessionState := SESSION_CLOSED\<rparr>)
      else ([], s))"

definition RestartSessionInitiator :: "CNetUMPHandler \<Rightarrow> CNetUMPHandler" where
  "RestartSessionInitiator s =
     (if \<not> IsInitiatorNode s then s
      else (PrepareTimerEvent (s\<lparr>UMPSequenceCounter := 0, SessionState := SESSION_INVITE\<rparr>) 1000)
             \<lparr>TimeOutRemote := TIMEOUT_RESET\<rparr>)"

definition GetSessionStatus :: "CNetUMPHandler \<Rightarrow> int" where
  "GetSessionStatus s =
     (if SessionState s = SESSION_CLOSED then 0
      else if SessionState s = SESSION_OPENED then 3
      else if SessionState s = SESSION_INVITE then 1
      else 2)"

definition ReadAndResetConnectionLost :: "CNetUMPHandler \<Rightarrow> bool \<times> CNetUMPHandler" where
  "ReadAndResetConnectionLost s =
     (if \<not> ConnectionLost s then (False, s) else (True, s\<lparr>ConnectionLost := False\<rparr>))"

definition RemotePeerClosedSession :: "CNetUMPHandler \<Rightarrow> bool \<times> CNetUMPHandler" where
  "RemotePeerClosedSession s =
     (let ReadValue = PeerClosedSession s in (ReadValue, s\<lparr>PeerClosedSession := False\<rparr>))"

subsection \<open>NetUMP.cpp: the outbound FIFO\<close>

text \<open>
  The copy loop of \<open>SendUMPMessage\<close>.  \<open>UMPData\<close> is the caller's message.  The loop
  stores into the ring before it tests for a full FIFO, so a message that does not fit
  leaves its first words behind the write cursor, which stays where it was.
\<close>

function SendUMPMessage_loop ::
  "(nat \<Rightarrow> u32) \<Rightarrow> nat \<Rightarrow> TUMP_FIFO \<Rightarrow> nat \<Rightarrow> nat \<Rightarrow> bool \<times> TUMP_FIFO" where
  "SendUMPMessage_loop UMPData MsgSize f WordCounter TmpWrite =
     (if WordCounter < MsgSize then
        let f' = f\<lparr>FIFO := (FIFO f)(TmpWrite := UMPData WordCounter)\<rparr>;
            TmpWrite' = fifo_next TmpWrite
        in if TmpWrite' = ReadPtr f then (False, f')
           else SendUMPMessage_loop UMPData MsgSize f' (WordCounter + 1) TmpWrite'
      else (True, f\<lparr>WritePtr := TmpWrite\<rparr>))"
  by pat_completeness auto
termination
  by (relation "measure (\<lambda>(UMPData, MsgSize, f, WordCounter, TmpWrite). MsgSize - WordCounter)") auto

declare SendUMPMessage_loop.simps [simp del]

definition SendUMPMessage :: "CNetUMPHandler \<Rightarrow> (nat \<Rightarrow> u32) \<Rightarrow> bool \<times> CNetUMPHandler" where
  "SendUMPMessage s UMPData =
     (if SessionState s \<noteq> SESSION_OPENED then (False, s)
      else
        let MT = MT_of (UMPData 0);
            MsgSize = UMPSize MT;
            TmpWrite = WritePtr (UMP_FIFO_TO_NET s);
            (ok, f) = SendUMPMessage_loop UMPData MsgSize (UMP_FIFO_TO_NET s) 0 TmpWrite
        in (ok, s\<lparr>UMP_FIFO_TO_NET := f\<rparr>))"

subsection \<open>NetUMP.cpp: GenerateUMPCommand\<close>

text \<open>
  The inner \<open>for\<close> loop that copies the words of a message after its first: \<open>k\<close> words
  from \<open>TempPtr\<close> on, the cursor wrapping at the end of the ring.
\<close>

fun CopyRest :: "(nat \<Rightarrow> u32) \<Rightarrow> nat \<Rightarrow> nat \<Rightarrow> u32 list \<times> nat" where
  "CopyRest fifo TempPtr 0 = ([], TempPtr)"
| "CopyRest fifo TempPtr (Suc k) =
     (let r = CopyRest fifo (fifo_next TempPtr) k in (fifo TempPtr # fst r, snd r))"

text \<open>
  The \<open>while\<close> loop that drains whole messages into \<open>NewUMPCommand[1..]\<close>.  \<open>Payload\<close> is
  what has been stored there so far, so \<open>NewCommandWordCount = length Payload\<close>.  The loop
  ends at the write-cursor snapshot or at the first message that would make the payload
  reach 65 words (\<open>MessageLimit\<close>).
\<close>

function DrainFIFO :: "(nat \<Rightarrow> u32) \<Rightarrow> nat \<Rightarrow> nat \<Rightarrow> u32 list \<Rightarrow> u32 list \<times> nat" where
  "DrainFIFO fifo UMPBlockEnd TempPtr Payload =
     (if TempPtr \<noteq> UMPBlockEnd then
        let NewUMP = fifo TempPtr;
            NewLength = UMPSize (MT_of NewUMP)
        in if length Payload + NewLength < 65 then
             let r = CopyRest fifo (fifo_next TempPtr) (NewLength - 1)
             in DrainFIFO fifo UMPBlockEnd (snd r) (Payload @ NewUMP # fst r)
           else (Payload, TempPtr)
      else (Payload, TempPtr))"
  by pat_completeness auto
termination
  by (relation "measure (\<lambda>(fifo, UMPBlockEnd, TempPtr, Payload). 65 - length Payload)") auto

declare DrainFIFO.simps [simp del]

text \<open>
  The loop that appends the FEC memory to the datagram: five polls from \<open>FECIndex\<close> on,
  wrapping, each filled slot giving its first \<open>Size\<close> words.
\<close>

definition FECTail :: "(nat \<Rightarrow> TFEC_REGISTER) \<Rightarrow> nat \<Rightarrow> u32 list" where
  "FECTail mem FECIndex0 =
     snd (fold (\<lambda>FECPollCounter (FECIndex, out).
                  (if FECIndex + 1 \<ge> NUM_FEC_ENTRIES then 0 else FECIndex + 1,
                   if Filled (mem FECIndex)
                   then out @ take (Size (mem FECIndex)) (Packet (mem FECIndex)) else out))
               [0, 1, 2, 3, 4 :: nat] (FECIndex0, []))"

text \<open>The header word of a new UMP data packet: \<open>0xFF\<close>, the payload length, the counter.\<close>

definition UMPHeader :: "nat \<Rightarrow> u16 \<Rightarrow> u32" where
  "UMPHeader NewCommandWordCount Counter =
     0xFF000000 + push_bit 16 (of_nat NewCommandWordCount) + ucast Counter"

text \<open>
  \<open>GenerateUMPCommand\<close> returns its return value (the number of words of the datagram),
  the words it has written to \<open>UMPCommand\<close>, and the handler afterwards.

  In FEC mode the loop that copies the new packet into the FEC slot runs
  \<open>WordCount < NewCommandWordCount + 1\<close> after the header has been counted, one word past
  the packet.  The surplus word lands at \<open>Packet[Size]\<close>, an index no read reaches; with a
  64-word payload that index is 65, outside \<open>Packet[65]\<close> and \<open>NewUMPCommand[65]\<close>, and
  the result is \<open>Inl (OutOfBounds 65)\<close>.
\<close>

definition GenerateUMPCommand :: "CNetUMPHandler \<Rightarrow> error + (nat \<times> u32 list \<times> CNetUMPHandler)" where
  "GenerateUMPCommand s =
    (let UMPBlockEnd = WritePtr (UMP_FIFO_TO_NET s) in
     if UMPBlockEnd = ReadPtr (UMP_FIFO_TO_NET s) then Inr (0, [], s)
     else
       let r = DrainFIFO (FIFO (UMP_FIFO_TO_NET s)) UMPBlockEnd (ReadPtr (UMP_FIFO_TO_NET s)) [];
           Payload = fst r;
           s1 = s\<lparr>UMP_FIFO_TO_NET := (UMP_FIFO_TO_NET s)\<lparr>ReadPtr := snd r\<rparr>\<rparr>;
           NewUMPCommand = UMPHeader (length Payload) (UMPSequenceCounter s1) # Payload;
           NewCommandWordCount = length Payload + 1;
           s2 = s1\<lparr>UMPSequenceCounter := UMPSequenceCounter s1 + 1\<rparr>
       in if ErrorCorrectionMode s2 = ERROR_CORRECTION_FEC then
            (if NewCommandWordCount \<ge> 65 then Inl (OutOfBounds 65)
             else
               let NewFECSlot = NextFECSlot s2;
                   mem = (FECMemory s2)
                           (NewFECSlot := \<lparr>Filled = True, Size = NewCommandWordCount,
                                            Packet = NewUMPCommand\<rparr>);
                   Next = (if NextFECSlot s2 + 1 \<ge> NUM_FEC_ENTRIES then 0
                           else NextFECSlot s2 + 1);
                   s3 = s2\<lparr>FECMemory := mem, NextFECSlot := Next\<rparr>;
                   UMPCommand = UMP_SIGNATURE # FECTail mem Next
               in Inr (length UMPCommand, UMPCommand, s3))
          else Inr (NewCommandWordCount + 1, UMP_SIGNATURE # NewUMPCommand, s2))"

subsection \<open>NetUMP.cpp: ProcessIncomingUMP\<close>

text \<open>Four bytes of a buffer as one word, most significant byte first.\<close>

definition be32 :: "(nat \<Rightarrow> u8) \<Rightarrow> nat \<Rightarrow> u32" where
  "be32 Buffer i =
     push_bit 24 (ucast (Buffer i)) + push_bit 16 (ucast (Buffer (i + 1))) +
     push_bit 8 (ucast (Buffer (i + 2))) + ucast (Buffer (i + 3))"

text \<open>
  The \<open>while (WordCounter < PayloadLength)\<close> loop.  It returns the messages handed to the
  callback, in order; \<open>cb\<close> says whether the callback pointer is set.  A message of
  \<open>MessageSize\<close> words is read whole even when fewer words of the payload remain.
\<close>

function ParseUMPPayload :: "(nat \<Rightarrow> u8) \<Rightarrow> bool \<Rightarrow> nat \<Rightarrow> nat \<Rightarrow> nat \<Rightarrow> u32 list list" where
  "ParseUMPPayload Buffer cb PayloadLength WordCounter ByteCounter =
     (if WordCounter < PayloadLength then
        let w0 = be32 Buffer ByteCounter;
            MessageSize = UMPSize (MT_of w0)
        in if MessageSize = 1 then
             (if cb then [[w0]] else []) @
             ParseUMPPayload Buffer cb PayloadLength (WordCounter + 1) (ByteCounter + 4)
           else
             let w1 = be32 Buffer (ByteCounter + 4)
             in if MessageSize = 2 then
                  (if cb then [[w0, w1]] else []) @
                  ParseUMPPayload Buffer cb PayloadLength (WordCounter + 2) (ByteCounter + 8)
                else
                  let w2 = be32 Buffer (ByteCounter + 8)
                  in if MessageSize = 3 then
                       (if cb then [[w0, w1, w2]] else []) @
                       ParseUMPPayload Buffer cb PayloadLength (WordCounter + 3) (ByteCounter + 12)
                     else
                       let w3 = be32 Buffer (ByteCounter + 12)
                       in (if cb then [[w0, w1, w2, w3]] else []) @
                          ParseUMPPayload Buffer cb PayloadLength (WordCounter + 4) (ByteCounter + 16)
      else [])"
  by pat_completeness auto
termination
  by (relation "measure (\<lambda>(Buffer, cb, PayloadLength, WordCounter, ByteCounter). PayloadLength - WordCounter)") auto

declare ParseUMPPayload.simps [simp del]

text \<open>The first loop of \<open>ProcessIncomingUMP\<close>: is the packet number one of the five kept?\<close>

definition InWindow :: "(nat \<Rightarrow> u16) \<Rightarrow> u16 \<Rightarrow> bool" where
  "InWindow RSC PacketNumber = list_ex (\<lambda>FECCounter. PacketNumber = RSC FECCounter) [0, 1, 2, 3, 4]"

definition PacketNumber_of :: "(nat \<Rightarrow> u8) \<Rightarrow> u16" where
  "PacketNumber_of Buffer = push_bit 8 (ucast (Buffer 2)) + ucast (Buffer 3)"

text \<open>
  \<open>ProcessIncomingUMP\<close> returns the callback calls it made, in order, and the handler
  afterwards.  \<open>Buffer\<close> points at the command byte \<open>0xFF\<close> of the packet.
\<close>

definition ProcessIncomingUMP :: "CNetUMPHandler \<Rightarrow> (nat \<Rightarrow> u8) \<Rightarrow> u32 list list \<times> CNetUMPHandler" where
  "ProcessIncomingUMP s Buffer =
    (let PayloadLength = unat (Buffer 1);
         PacketNumber = PacketNumber_of Buffer
     in if InWindow (ReceivedSequenceCounters s) PacketNumber then ([], s)
        else
          let s1 = s\<lparr>LastReceivedUMPCounter := PacketNumber\<rparr>;
              RSC = fold (\<lambda>FECCounter r. r(FECCounter := r (FECCounter + 1))) [0, 1, 2, 3]
                      (ReceivedSequenceCounters s1);
              s2 = s1\<lparr>ReceivedSequenceCounters := RSC(NUM_FEC_ENTRIES - 1 := PacketNumber)\<rparr>
          in (ParseUMPPayload Buffer (UMPCallback s2) PayloadLength 0 4, s2))"

subsection \<open>NetUMP.cpp: RunSession\<close>

text \<open>
  What one call of \<open>RunSession\<close> finds on the socket when \<open>DataAvail\<close> answers true:
  \<open>ReceptionBuffer\<close> as \<open>recvfrom\<close> leaves it (the datagram in its first \<open>RecvSize\<close>
  bytes, then whatever the stack holds), \<open>RecvSize\<close>, and the sender's address and port in
  host order.
\<close>

record received =
  ReceptionBuffer :: "nat \<Rightarrow> u8"
  RecvSize :: int
  SenderData_addr :: u32
  SenderData_port :: u16

text \<open>The locals of \<open>RunSession\<close> that the parsing loop sets and the later blocks read.\<close>

record decoder_state =
  InvitationReceived :: bool
  BYEReceived :: bool
  InvitationAccepted :: bool
  PingReceived :: bool
  SenderIP :: u32
  SenderPort :: u16
  Ping_ID :: u32

definition decoder_init :: decoder_state where
  "decoder_init = \<lparr>InvitationReceived = False, BYEReceived = False, InvitationAccepted = False,
                    PingReceived = False, SenderIP = 0, SenderPort = 0, Ping_ID = 0\<rparr>"

text \<open>The \<open>switch\<close> on the command byte at \<open>PtrParse\<close>.\<close>

definition DispatchCommand ::
  "received \<Rightarrow> nat \<Rightarrow> decoder_state \<times> event list \<times> CNetUMPHandler \<Rightarrow>
   decoder_state \<times> event list \<times> CNetUMPHandler" where
  "DispatchCommand rx PtrParse st =
    (let fl = fst st; evs = fst (snd st); s = snd (snd st);
         cmd = ReceptionBuffer rx PtrParse
     in if cmd = UMP_DATA_COMMAND then
          (if SenderData_addr rx = SessionPartnerIP s \<and> SenderData_port rx = SessionPartnerPort s \<and>
              SessionState s = SESSION_OPENED
           then
             let r = ProcessIncomingUMP (s\<lparr>TimeOutRemote := TIMEOUT_RESET\<rparr>)
                       (\<lambda>i. ReceptionBuffer rx (PtrParse + i))
             in (fl, evs @ map Callback (fst r), snd r)
           else (fl, evs, s))
        else if cmd = INVITATION_COMMAND then (fl\<lparr>InvitationReceived := True\<rparr>, evs, s)
        else if cmd = BYE_COMMAND then (fl\<lparr>BYEReceived := True\<rparr>, evs, s)
        else if cmd = INVITATION_ACCEPTED_COMMAND then (fl\<lparr>InvitationAccepted := True\<rparr>, evs, s)
        else if cmd = PING_COMMAND then
          (fl\<lparr>PingReceived := True, Ping_ID := be32 (ReceptionBuffer rx) (PtrParse + 4)\<rparr>, evs, s)
        else if cmd = PING_REPLY_COMMAND then
          (fl, evs, if SessionState s = SESSION_OPENED then s\<lparr>TimeOutRemote := TIMEOUT_RESET\<rparr> else s)
        else (fl, evs, s))"

text \<open>The loop over the NetUMP commands of one datagram.\<close>

function ParseCommands ::
  "received \<Rightarrow> nat \<Rightarrow> decoder_state \<times> event list \<times> CNetUMPHandler \<Rightarrow>
   decoder_state \<times> event list \<times> CNetUMPHandler" where
  "ParseCommands rx PtrParse st =
     (if int PtrParse < RecvSize rx then
        let PayloadSize = 4 * unat (ReceptionBuffer rx (PtrParse + 1))
        in ParseCommands rx (PtrParse + 4 + PayloadSize) (DispatchCommand rx PtrParse st)
      else st)"
  by pat_completeness auto
termination
  by (relation "measure (\<lambda>(rx, PtrParse, st). nat (RecvSize rx) - PtrParse)") auto

declare ParseCommands.simps [simp del]

definition RunSession_timer :: "CNetUMPHandler \<Rightarrow> CNetUMPHandler" where
  "RunSession_timer s =
     (if TimerRunning s then
        let s1 = (if EventTime s > 0 then s\<lparr>EventTime := EventTime s - 1\<rparr> else s)
        in if EventTime s1 = 0 then s1\<lparr>TimerRunning := False, TimerEvent := True\<rparr> else s1
      else s)"

definition RunSession_timeout :: "CNetUMPHandler \<Rightarrow> event list \<times> CNetUMPHandler" where
  "RunSession_timeout s =
     (if SessionState s = SESSION_OPENED then
        let s1 = (if TimeOutRemote s > 0 then s\<lparr>TimeOutRemote := TimeOutRemote s - 1\<rparr> else s)
        in if TimeOutRemote s1 = 0 then
             let s2 = s1\<lparr>ConnectionLost := True\<rparr>;
                 ev = [SendTo (SessionPartnerIP s2) (SessionPartnerPort s2) (BYE BYE_TIMEOUT)]
             in if IsInitiatorNode s2
                then (ev, RestartSessionInitiator (s2\<lparr>SessionState := SESSION_CLOSED\<rparr>))
                else (ev, s2\<lparr>SessionState := SESSION_WAIT_INVITE\<rparr>)
           else ([], s1)
      else ([], s))"

definition RunSession_receive ::
  "CNetUMPHandler \<Rightarrow> received option \<Rightarrow> decoder_state \<times> event list \<times> CNetUMPHandler" where
  "RunSession_receive s DataAvail =
     (case DataAvail of
        None \<Rightarrow> (decoder_init, [], s)
      | Some rx \<Rightarrow>
          if RecvSize rx > 0 then
            (if ReceptionBuffer rx 0 = 0x4D \<and> ReceptionBuffer rx 1 = 0x49 \<and>
                ReceptionBuffer rx 2 = 0x44 \<and> ReceptionBuffer rx 3 = 0x49
             then ParseCommands rx 4
                    (decoder_init\<lparr>SenderIP := SenderData_addr rx, SenderPort := SenderData_port rx\<rparr>,
                     [], s)
             else (decoder_init, [], s))
          else (decoder_init, [], s))"

definition RunSession_invitation ::
  "decoder_state \<Rightarrow> CNetUMPHandler \<Rightarrow> event list \<times> CNetUMPHandler" where
  "RunSession_invitation fl s =
     (if InvitationReceived fl then
        (if \<not> IsInitiatorNode s then
           (if SessionState s = SESSION_WAIT_INVITE then
              let s1 = s\<lparr>TimeOutRemote := TIMEOUT_RESET, SessionState := SESSION_OPENED,
                         SessionPartnerIP := SenderIP fl, SessionPartnerPort := SenderPort fl\<rparr>
              in ([SendTo (SessionPartnerIP s1) (SessionPartnerPort s1)
                     (INVITATION_ACCEPTED (EndpointName s1) (ProductInstanceID s1))],
                  ResetFECMemory s1)
            else ([], s))
         else ([SendTo (SenderIP fl) (SenderPort fl) (BYE BYE_TOO_MANY_SESSIONS)], s))
      else ([], s))"

definition RunSession_ping :: "decoder_state \<Rightarrow> CNetUMPHandler \<Rightarrow> event list" where
  "RunSession_ping fl s =
     (if PingReceived fl
      then [SendTo (SessionPartnerIP s) (SessionPartnerPort s) (PING_REPLY (Ping_ID fl))]
      else [])"

definition RunSession_bye :: "decoder_state \<Rightarrow> CNetUMPHandler \<Rightarrow> event list \<times> CNetUMPHandler" where
  "RunSession_bye fl s =
     (if BYEReceived fl then
        (if SenderIP fl = SessionPartnerIP s \<and> SenderPort fl = SessionPartnerPort s then
           let ev = [SendTo (SessionPartnerIP s) (SessionPartnerPort s) BYE_REPLY];
               s1 = (if \<not> IsInitiatorNode s
                     then s\<lparr>SessionState := SESSION_WAIT_INVITE, SessionPartnerIP := 0,
                            SessionPartnerPort := 0\<rparr>
                     else RestartSessionInitiator (s\<lparr>SessionState := SESSION_CLOSED\<rparr>))
           in (ev, s1\<lparr>ConnectionLost := True\<rparr>)
         else ([SendTo (SenderIP fl) (SenderPort fl) BYE_REPLY], s))
      else ([], s))"

text \<open>
  The state machine at the end of \<open>RunSession\<close>.  \<open>UMPCommand\<close> is a local array of 65
  words: a datagram of more than 65 words is written past its end.
\<close>

definition RunSession_state_machine ::
  "decoder_state \<Rightarrow> CNetUMPHandler \<Rightarrow> error + (event list \<times> CNetUMPHandler)" where
  "RunSession_state_machine fl s =
     (if SessionState s = SESSION_CLOSED then Inr ([], s)
      else
        case GenerateUMPCommand s of
          Inl e \<Rightarrow> Inl e
        | Inr (UMPCommandSize, UMPCommand, s1) \<Rightarrow>
            if UMPCommandSize > 65 then Inl (OutOfBounds 65)
            else if SessionState s1 = SESSION_OPENED then
              let ev = (if UMPCommandSize > 0
                        then [SendTo (SessionPartnerIP s1) (SessionPartnerPort s1)
                                (UMP_DATA (take UMPCommandSize UMPCommand))]
                        else []);
                  s2 = s1\<lparr>PINGDelayCounter := PINGDelayCounter s1 + 1\<rparr>
              in if PINGDelayCounter s2 > 10000 then
                   let s3 = s2\<lparr>PINGDelayCounter := 0, PINGIdCounter := PINGIdCounter s2 + 1\<rparr>
                   in Inr (ev @ [SendTo (SessionPartnerIP s3) (SessionPartnerPort s3)
                                   (PING (PINGIdCounter s3))], s3)
                 else Inr (ev, s2)
            else if SessionState s1 = SESSION_INVITE then
              (if InvitationAccepted fl then
                 Inr ([], ResetFECMemory (s1\<lparr>SessionPartnerIP := SenderIP fl,
                                             SessionState := SESSION_OPENED\<rparr>))
               else if \<not> TimerRunning s1 then
                 (if TimerEvent s1 then
                    let ev = [SendTo (SessionPartnerIP s1) (RemoteUDPPort s1)
                                (INVITATION (EndpointName s1) (ProductInstanceID s1))];
                        s2 = PrepareTimerEvent s1 1000
                    in Inr (ev, s2\<lparr>InviteCount := InviteCount s2 + 1\<rparr>)
                  else Inr ([], s1))
               else Inr ([], s1))
            else Inr ([], s1))"

text \<open>
  One call of \<open>RunSession\<close>: what it sends and calls, in order, and the handler afterwards.
\<close>

definition RunSession ::
  "CNetUMPHandler \<Rightarrow> received option \<Rightarrow> error + (event list \<times> CNetUMPHandler)" where
  "RunSession s DataAvail =
     (if SocketLocked s then Inr ([], s)
      else
        let s1 = RunSession_timer s;
            r2 = RunSession_timeout s1;
            r3 = RunSession_receive (snd r2) DataAvail;
            fl = fst r3;
            r4 = RunSession_invitation fl (snd (snd r3));
            ev5 = RunSession_ping fl (snd r4);
            r6 = RunSession_bye fl (snd r4)
        in case RunSession_state_machine fl (snd r6) of
             Inl e \<Rightarrow> Inl e
           | Inr (ev7, s7) \<Rightarrow>
               Inr (fst r2 @ fst (snd r3) @ fst r4 @ ev5 @ fst r6 @ ev7, s7))"

subsection \<open>The states an endpoint can be in\<close>

text \<open>
  A handler is constructed and then driven through its public methods in any order, with
  any arguments, any socket traffic and any answer of \<open>CreateUDPSocket\<close>.  A call that
  writes out of bounds ends the run.
\<close>

inductive reach :: "CNetUMPHandler \<Rightarrow> bool" where
  reach_init: "reach (CNetUMPHandler_init raw CallbackFunc UserInstance)"
| reach_SetEndpointName: "reach s \<Longrightarrow> reach (SetEndpointName s Name)"
| reach_SetProductInstanceID: "reach s \<Longrightarrow> reach (SetProductInstanceID s PIID)"
| reach_InitiateSession:
    "reach s \<Longrightarrow> reach (snd (InitiateSession s DestIP DestPort LocalPort IsInitiator SocketOK))"
| reach_CloseSession: "reach s \<Longrightarrow> reach (snd (CloseSession s))"
| reach_RunSession: "reach s \<Longrightarrow> RunSession s DataAvail = Inr (evs, s') \<Longrightarrow> reach s'"
| reach_RestartSessionInitiator: "reach s \<Longrightarrow> reach (RestartSessionInitiator s)"
| reach_ReadAndResetConnectionLost: "reach s \<Longrightarrow> reach (snd (ReadAndResetConnectionLost s))"
| reach_RemotePeerClosedSession: "reach s \<Longrightarrow> reach (snd (RemotePeerClosedSession s))"
| reach_SendUMPMessage: "reach s \<Longrightarrow> reach (snd (SendUMPMessage s UMPData))"
| reach_SelectErrorCorrectionMode: "reach s \<Longrightarrow> reach (SelectErrorCorrectionMode s CorrectionMethod)"
| reach_SetCallback: "reach s \<Longrightarrow> reach (SetCallback s CallbackFunc UserInstance)"

subsection \<open>Views of the state used to state the properties\<close>

text \<open>The receive dedup window \<open>ReceivedSequenceCounters[0..4]\<close> as a list, oldest first.\<close>

definition window :: "CNetUMPHandler \<Rightarrow> u16 list" where
  "window s = map (ReceivedSequenceCounters s) [0, 1, 2, 3, 4]"

text \<open>The same packet handed to \<open>ProcessIncomingUMP\<close> \<open>n\<close> times in a row.\<close>

fun ProcessIncomingUMP_times ::
  "nat \<Rightarrow> CNetUMPHandler \<Rightarrow> (nat \<Rightarrow> u8) \<Rightarrow> u32 list list \<times> CNetUMPHandler" where
  "ProcessIncomingUMP_times 0 s Buffer = ([], s)"
| "ProcessIncomingUMP_times (Suc n) s Buffer =
     (let r = ProcessIncomingUMP s Buffer;
          r' = ProcessIncomingUMP_times n (snd r) Buffer
      in (fst r @ fst r', snd r'))"

text \<open>The first \<open>n\<close> words of the payload of the packet at \<open>Buffer\<close>, as the wire holds them.\<close>

definition payload_words :: "(nat \<Rightarrow> u8) \<Rightarrow> nat \<Rightarrow> u32 list" where
  "payload_words Buffer n = map (\<lambda>k. be32 Buffer (4 + 4 * k)) [0..<n]"

text \<open>A whole UMP message: as many words as the MT of its first word says.\<close>

definition whole_message :: "u32 list \<Rightarrow> bool" where
  "whole_message m = (m \<noteq> [] \<and> length m = UMPSize (MT_of (hd m)))"

text \<open>Memory that holds the given bytes and zeros after them.\<close>

definition buffer_of :: "u8 list \<Rightarrow> nat \<Rightarrow> u8" where
  "buffer_of bs i = (if i < length bs then bs ! i else 0)"

text \<open>
  What the \<open>while\<close> loop of \<open>GenerateUMPCommand\<close> drains from the FIFO in state \<open>s\<close>
  (payload and new read cursor), and the packet the function assembles from it
  (\<open>NewUMPCommand\<close>: header word, then the drained payload).
\<close>

definition Drained :: "CNetUMPHandler \<Rightarrow> u32 list \<times> nat" where
  "Drained s = DrainFIFO (FIFO (UMP_FIFO_TO_NET s)) (WritePtr (UMP_FIFO_TO_NET s))
                 (ReadPtr (UMP_FIFO_TO_NET s)) []"

definition NewUMPCommand_of :: "CNetUMPHandler \<Rightarrow> u32 list" where
  "NewUMPCommand_of s =
     UMPHeader (length (fst (Drained s))) (UMPSequenceCounter s) # fst (Drained s)"

text \<open>The 16-bit packet number of a UMP data header word: its two low bytes.\<close>

definition packet_number :: "u32 \<Rightarrow> u16" where
  "packet_number hdr = ucast hdr"

text \<open>
  The packets held in the FEC memory, read the way the datagram loop reads them: from
  \<open>NextFECSlot\<close> round the ring, filled slots only.
\<close>

definition ring_view :: "(nat \<Rightarrow> TFEC_REGISTER) \<Rightarrow> nat \<Rightarrow> u32 list list" where
  "ring_view mem first =
     map (\<lambda>i. take (Size (mem i)) (Packet (mem i)))
       (filter (\<lambda>i. Filled (mem i))
          (map (\<lambda>k. (first + k) mod NUM_FEC_ENTRIES) [0, 1, 2, 3, 4]))"

definition FECView :: "CNetUMPHandler \<Rightarrow> u32 list list" where
  "FECView s = ring_view (FECMemory s) (NextFECSlot s)"

text \<open>
  The shape of the FEC ring: the next slot is one of the five, and either every slot is
  filled or exactly the slots below \<open>NextFECSlot\<close> are.
\<close>

definition fec_ok :: "CNetUMPHandler \<Rightarrow> bool" where
  "fec_ok s =
     (NextFECSlot s < NUM_FEC_ENTRIES \<and>
      (list_all (\<lambda>i. Filled (FECMemory s i)) [0, 1, 2, 3, 4] \<or>
       list_all (\<lambda>i. Filled (FECMemory s i) = (i < NextFECSlot s)) [0, 1, 2, 3, 4]))"

text \<open>Is the event the sending of an INVITATION packet?\<close>

definition is_invitation :: "event \<Rightarrow> bool" where
  "is_invitation ev = (case ev of SendTo ip port (INVITATION name piid) \<Rightarrow> True | _ \<Rightarrow> False)"

text \<open>
  A datagram that holds the signature and one command with no payload: eight bytes, the
  command byte \<open>c\<close> at offset 4 and a zero length byte at offset 5.
\<close>

definition single_command :: "received \<Rightarrow> u8 \<Rightarrow> bool" where
  "single_command rx c =
     (RecvSize rx = 8 \<and> ReceptionBuffer rx 0 = 0x4D \<and> ReceptionBuffer rx 1 = 0x49 \<and>
      ReceptionBuffer rx 2 = 0x44 \<and> ReceptionBuffer rx 3 = 0x49 \<and>
      ReceptionBuffer rx 4 = c \<and> ReceptionBuffer rx 5 = 0)"

text \<open>
  What holds of the handler in every state the endpoint reaches (lemma \<open>reach_inv\<close>):
  the peer-closed flag is down, the FEC ring has its shape, both cursors of the outbound
  FIFO are inside the ring, and an inviting endpoint has its full timeout.
\<close>

definition endpoint_inv :: "CNetUMPHandler \<Rightarrow> bool" where
  "endpoint_inv s =
     (\<not> PeerClosedSession s \<and> fec_ok s \<and>
      ReadPtr (UMP_FIFO_TO_NET s) < UMP_FIFO_SIZE \<and> WritePtr (UMP_FIFO_TO_NET s) < UMP_FIFO_SIZE \<and>
      (SessionState s = SESSION_INVITE \<longrightarrow> TimeOutRemote s = TIMEOUT_RESET))"

subsection \<open>Concrete storage for concrete runs\<close>

text \<open>A zero-filled object, used where a run of the endpoint is evaluated.\<close>

definition zero_storage :: CNetUMPHandler where
  "zero_storage =
     \<lparr>UMPCallback = False, ClientInstance = 0,
      UMP_FIFO_TO_NET = \<lparr>FIFO = (\<lambda>_. 0), ReadPtr = 0, WritePtr = 0\<rparr>,
      UMP_FIFO_FROM_NET = \<lparr>FIFO = (\<lambda>_. 0), ReadPtr = 0, WritePtr = 0\<rparr>,
      EndpointName = [], ProductInstanceID = [],
      RemoteIP = 0, RemoteUDPPort = 0, LocalUDPPort = 0, IsInitiatorNode = False,
      SocketLocked = False, UMPSequenceCounter = 0, LastReceivedUMPCounter = 0,
      PINGDelayCounter = 0, PINGIdCounter = 0, UMPSocket = False,
      SessionState = SESSION_CLOSED, SessionPartnerIP = 0, SessionPartnerPort = 0,
      ConnectionLost = False, PeerClosedSession = False, InviteCount = 0, TimeOutRemote = 0,
      TimerRunning = False, TimerEvent = False, EventTime = 0, TimeCounter = 0,
      FECMemory = (\<lambda>_. \<lparr>Filled = False, Size = 0, Packet = []\<rparr>), NextFECSlot = 0,
      ErrorCorrectionMode = 0, ReceivedSequenceCounters = (\<lambda>_. 0)\<rparr>"

text \<open>A freshly constructed handler with a callback.\<close>

definition fresh :: CNetUMPHandler where
  "fresh = CNetUMPHandler_init zero_storage True 0"

text \<open>An opened session with one one-word message (a note-on) queued.\<close>

definition one_queued :: CNetUMPHandler where
  "one_queued = snd (SendUMPMessage (fresh\<lparr>SessionState := SESSION_OPENED\<rparr>) (\<lambda>i. 0x20904040))"

text \<open>
  An initiator that has just called \<open>InitiateSession\<close> towards 10.0.0.1:5004, and a
  datagram that holds one INVITATION ACCEPTED command and comes from 10.0.0.2:6000.
\<close>

definition inviting :: CNetUMPHandler where
  "inviting = snd (InitiateSession fresh 0x0A000001 5004 5004 True True)"

definition accepted_rx :: received where
  "accepted_rx = \<lparr>ReceptionBuffer = buffer_of [0x4D, 0x49, 0x44, 0x49, 0x10, 0, 0, 0],
                    RecvSize = 8, SenderData_addr = 0x0A000002, SenderData_port = 6000\<rparr>"

text \<open>
  The handler that \<open>RunSession\<close> leaves when the inviting endpoint receives that datagram
  (lemma \<open>opened_run\<close>): an opened session.
\<close>

definition opened :: CNetUMPHandler where
  "opened = ResetFECMemory ((RunSession_timer inviting)\<lparr>SessionPartnerIP := 0x0A000002,
                                                          SessionState := SESSION_OPENED\<rparr>)"

text \<open>A zero-filled SYSEX decoder.\<close>

definition zero_decoder :: TSYSEX7_Decoder_Control where
  "zero_decoder = \<lparr>UMPStarted = 0, SYSEXSize = 0, SYSEXBuffer = (\<lambda>_. 0)\<rparr>"

section \<open>Properties\<close>

subsection \<open>Arithmetic of the ring cursor and of the MT table\<close>

lemma fifo_next_mod: "p < UMP_FIFO_SIZE \<Longrightarrow> fifo_next p = (p + 1) mod UMP_FIFO_SIZE"
  by (auto simp: fifo_next_def mod_if)

lemma fifo_next_less: "fifo_next p < UMP_FIFO_SIZE"
  by (simp add: fifo_next_def)

lemma UMPSize_range: "m < 16 \<Longrightarrow> 1 \<le> UMPSize m \<and> UMPSize m \<le> 4"
proof -
  assume "m < 16"
  then have "m = 0 \<or> m = 1 \<or> m = 2 \<or> m = 3 \<or> m = 4 \<or> m = 5 \<or> m = 6 \<or> m = 7 \<or>
             m = 8 \<or> m = 9 \<or> m = 10 \<or> m = 11 \<or> m = 12 \<or> m = 13 \<or> m = 14 \<or> m = 15"
    by arith
  then show ?thesis by (elim disjE) (simp_all add: UMPSize_def)
qed

lemma MT_of_less: "MT_of w < 16"
proof -
  have "unat w < 2 ^ LENGTH(32)" by (rule unsigned_less)
  then have "unat w < 2 ^ 32" by simp
  then have "unat w div 2 ^ 28 < 16" by simp
  then show ?thesis by (simp add: MT_of_def drop_bit_eq_div unat_div)
qed

lemma UMPSize_MT_range: "1 \<le> UMPSize (MT_of w) \<and> UMPSize (MT_of w) \<le> 4"
  by (rule UMPSize_range [OF MT_of_less])

lemma all_shift: "(\<forall>j\<in>{1..Suc n}. P j) \<longleftrightarrow> P 1 \<and> (\<forall>j\<in>{1..n}. P (Suc j))"
proof
  assume a: "\<forall>j\<in>{1..Suc n}. P j"
  show "P 1 \<and> (\<forall>j\<in>{1..n}. P (Suc j))" using a by auto
next
  assume a: "P 1 \<and> (\<forall>j\<in>{1..n}. P (Suc j))"
  show "\<forall>j\<in>{1..Suc n}. P j"
  proof
    fix j assume j: "j \<in> {1..Suc n}"
    show "P j"
    proof (cases "j = 1")
      case True then show ?thesis using a by simp
    next
      case False
      then obtain i where "j = Suc i" "i \<in> {1..n}" using j by (cases j) auto
      then show ?thesis using a by auto
    qed
  qed
qed

subsection \<open>SendUMPMessage\<close>

lemma SendUMPMessage_loop_spec:
  "T < UMP_FIFO_SIZE \<Longrightarrow> k \<le> M \<Longrightarrow>
   fst (SendUMPMessage_loop U M f k T) = (\<forall>j\<in>{1..M - k}. (T + j) mod UMP_FIFO_SIZE \<noteq> ReadPtr f) \<and>
   ReadPtr (snd (SendUMPMessage_loop U M f k T)) = ReadPtr f \<and>
   WritePtr (snd (SendUMPMessage_loop U M f k T)) =
     (if fst (SendUMPMessage_loop U M f k T) then (T + (M - k)) mod UMP_FIFO_SIZE else WritePtr f)"
proof (induction U M f k T rule: SendUMPMessage_loop.induct)
  case (1 UMPData MsgSize f WordCounter TmpWrite)
  show ?case
  proof (cases "WordCounter < MsgSize")
    case False
    then have "SendUMPMessage_loop UMPData MsgSize f WordCounter TmpWrite =
               (True, f\<lparr>WritePtr := TmpWrite\<rparr>)"
      by (subst SendUMPMessage_loop.simps) simp
    with False "1.prems" show ?thesis by simp
  next
    case lt: True
    let ?f' = "f\<lparr>FIFO := (FIFO f)(TmpWrite := UMPData WordCounter)\<rparr>"
    have next_eq: "fifo_next TmpWrite = (TmpWrite + 1) mod UMP_FIFO_SIZE"
      using "1.prems" by (simp add: fifo_next_mod)
    obtain n where n: "MsgSize - WordCounter = Suc n"
      using lt by (cases "MsgSize - WordCounter") auto
    then have n': "MsgSize - (WordCounter + 1) = n" by simp
    show ?thesis
    proof (cases "fifo_next TmpWrite = ReadPtr f")
      case True
      then have "(TmpWrite + 1) mod UMP_FIFO_SIZE = ReadPtr f" using next_eq by simp
      then have "\<not> (\<forall>j\<in>{1..MsgSize - WordCounter}. (TmpWrite + j) mod UMP_FIFO_SIZE \<noteq> ReadPtr f)"
        unfolding n all_shift by simp
      with True lt show ?thesis
        by (simp add: SendUMPMessage_loop.simps [of UMPData MsgSize f WordCounter TmpWrite] Let_def)
    next
      case False
      then have ne: "(TmpWrite + 1) mod UMP_FIFO_SIZE \<noteq> ReadPtr f" using next_eq by simp
      have step: "SendUMPMessage_loop UMPData MsgSize f WordCounter TmpWrite =
                  SendUMPMessage_loop UMPData MsgSize ?f' (WordCounter + 1) (fifo_next TmpWrite)"
        using lt False
        by (simp add: SendUMPMessage_loop.simps [of UMPData MsgSize f WordCounter TmpWrite] Let_def)
      have IH: "fst (SendUMPMessage_loop UMPData MsgSize ?f' (WordCounter + 1) (fifo_next TmpWrite)) =
                  (\<forall>j\<in>{1..n}. (fifo_next TmpWrite + j) mod UMP_FIFO_SIZE \<noteq> ReadPtr f) \<and>
                ReadPtr (snd (SendUMPMessage_loop UMPData MsgSize ?f' (WordCounter + 1) (fifo_next TmpWrite))) = ReadPtr f \<and>
                WritePtr (snd (SendUMPMessage_loop UMPData MsgSize ?f' (WordCounter + 1) (fifo_next TmpWrite))) =
                  (if fst (SendUMPMessage_loop UMPData MsgSize ?f' (WordCounter + 1) (fifo_next TmpWrite))
                   then (fifo_next TmpWrite + n) mod UMP_FIFO_SIZE else WritePtr f)"
        using "1.IH" [OF lt refl refl False fifo_next_less] lt n' by simp
      have shift: "\<And>j. (fifo_next TmpWrite + j) mod UMP_FIFO_SIZE = (TmpWrite + Suc j) mod UMP_FIFO_SIZE"
        unfolding next_eq by (simp add: mod_add_left_eq)
      show ?thesis
        unfolding step n all_shift using IH ne by (simp add: shift)
    qed
  qed
qed

text \<open>
  Claim C4.  \<open>SendUMPMessage\<close> answers false whenever the session is not opened.  In an
  opened session it answers true exactly when none of the cursor positions
  \<open>WritePtr + 1, ..., WritePtr + MsgSize\<close> (modulo 1024) is the read cursor, \<open>MsgSize\<close>
  being the 1 to 4 words that the MT nibble of the first word gives.  When it answers false
  the published write cursor is unchanged; when it answers true the cursor has advanced
  by \<open>MsgSize\<close>.  The read cursor is never touched.  The write cursor is below 1024, as it
  is in every state the endpoint reaches.
\<close>

theorem SendUMPMessage_spec:
  assumes "WritePtr (UMP_FIFO_TO_NET s) < UMP_FIFO_SIZE"
  shows "fst (SendUMPMessage s UMPData) =
           (SessionState s = SESSION_OPENED \<and>
            (\<forall>k\<in>{1..UMPSize (MT_of (UMPData 0))}.
               (WritePtr (UMP_FIFO_TO_NET s) + k) mod UMP_FIFO_SIZE \<noteq> ReadPtr (UMP_FIFO_TO_NET s))) \<and>
         1 \<le> UMPSize (MT_of (UMPData 0)) \<and> UMPSize (MT_of (UMPData 0)) \<le> 4 \<and>
         ReadPtr (UMP_FIFO_TO_NET (snd (SendUMPMessage s UMPData))) = ReadPtr (UMP_FIFO_TO_NET s) \<and>
         WritePtr (UMP_FIFO_TO_NET (snd (SendUMPMessage s UMPData))) =
           (if fst (SendUMPMessage s UMPData)
            then (WritePtr (UMP_FIFO_TO_NET s) + UMPSize (MT_of (UMPData 0))) mod UMP_FIFO_SIZE
            else WritePtr (UMP_FIFO_TO_NET s))"
proof (cases "SessionState s = SESSION_OPENED")
  case False
  then show ?thesis using UMPSize_MT_range [of "UMPData 0"] by (simp add: SendUMPMessage_def)
next
  case True
  have "0 \<le> UMPSize (MT_of (UMPData 0))" by simp
  note L = SendUMPMessage_loop_spec [OF assms this, of UMPData "UMP_FIFO_TO_NET s"]
  show ?thesis using True L UMPSize_MT_range [of "UMPData 0"]
    by (simp add: SendUMPMessage_def Let_def split_beta)
qed

lemma fresh_fifo: "WritePtr (UMP_FIFO_TO_NET fresh) = 0" "ReadPtr (UMP_FIFO_TO_NET fresh) = 0"
  by (simp_all add: fresh_def CNetUMPHandler_init_def Let_def SelectErrorCorrectionMode_def
        ResetFECMemory_def)

lemma fresh_closed: "SessionState fresh = SESSION_CLOSED"
  by (simp add: fresh_def CNetUMPHandler_init_def Let_def SelectErrorCorrectionMode_def
        ResetFECMemory_def)

theorem SendUMPMessage_spec_witness:
  "WritePtr (UMP_FIFO_TO_NET (fresh\<lparr>SessionState := SESSION_OPENED\<rparr>)) < UMP_FIFO_SIZE \<and>
   fst (SendUMPMessage (fresh\<lparr>SessionState := SESSION_OPENED\<rparr>) (\<lambda>i. 0x20904040)) \<and>
   WritePtr (UMP_FIFO_TO_NET
     (snd (SendUMPMessage (fresh\<lparr>SessionState := SESSION_OPENED\<rparr>) (\<lambda>i. 0x20904040)))) = 1 \<and>
   \<not> fst (SendUMPMessage fresh (\<lambda>i. 0x20904040))"
proof -
  have w: "WritePtr (UMP_FIFO_TO_NET (fresh\<lparr>SessionState := SESSION_OPENED\<rparr>)) < UMP_FIFO_SIZE"
    by (simp add: fresh_fifo)
  have w2: "WritePtr (UMP_FIFO_TO_NET fresh) < UMP_FIFO_SIZE"
    by (simp add: fresh_fifo)
  have mt: "UMPSize (MT_of (0x20904040 :: u32)) = 1"
    by (simp add: UMPSize_def MT_of_def)
  show ?thesis
    using SendUMPMessage_spec [OF w, of "\<lambda>i. 0x20904040"]
      SendUMPMessage_spec [OF w2, of "\<lambda>i. 0x20904040"] w
    by (simp add: mt fresh_fifo fresh_closed)
qed

subsection \<open>SetEndpointName and SetProductInstanceID\<close>



subsection \<open>RebuildSYSEXFromUMP\<close>



lemma RebuildSYSEX_not_started:
  "UMPStarted d = 0 \<Longrightarrow> w0 AND 0xF0F00000 = 0x30200000 \<or> w0 AND 0xF0F00000 = 0x30300000 \<Longrightarrow>
   RebuildSYSEXFromUMP (w0, w1) d = Inr (0, d)"
  by (auto simp: RebuildSYSEXFromUMP_def Let_def)

text \<open>
  Claim C9.  A SYSEX of 255 data bytes arrives as a Start packet, 41 Continue packets and
  an End packet with three bytes.  Every Continue passes the size test (the size is at
  most 247 when it is tested), so the End packet finds \<open>SYSEXSize = 253\<close>, stores its
  bytes at 253, 254 and 255, and then stores \<open>0xF7\<close> at index 256, past the end of
  \<open>SYSEXBuffer[256]\<close>.
\<close>

theorem RebuildSYSEX_End_overflows:
  "(case RebuildSYSEX_stream
           ((0x30160102, 0x03040506) # replicate 41 (0x30260102, 0x03040506) @
            [(0x30330102, 0x03000000)]) zero_decoder of
      Inl (OutOfBounds i) \<Rightarrow> i = 256
    | Inr r \<Rightarrow> False)"
  by code_simp

subsection \<open>ProcessIncomingUMP\<close>

lemma InWindow_window: "InWindow (ReceivedSequenceCounters s) n \<longleftrightarrow> n \<in> set (window s)"
  by (auto simp: InWindow_def window_def)

lemma ProcessIncomingUMP_replay:
  "InWindow (ReceivedSequenceCounters s) (PacketNumber_of Buffer) \<Longrightarrow> ProcessIncomingUMP s Buffer = ([], s)"
  by (simp add: ProcessIncomingUMP_def Let_def)

lemma ProcessIncomingUMP_window:
  "\<not> InWindow (ReceivedSequenceCounters s) (PacketNumber_of Buffer) \<Longrightarrow>
   window (snd (ProcessIncomingUMP s Buffer)) = tl (window s) @ [PacketNumber_of Buffer]"
  by (simp add: ProcessIncomingUMP_def Let_def window_def eval_nat_numeral)

lemma ProcessIncomingUMP_fresh:
  "\<not> InWindow (ReceivedSequenceCounters s) (PacketNumber_of Buffer) \<Longrightarrow>
   fst (ProcessIncomingUMP s Buffer) = ParseUMPPayload Buffer (UMPCallback s) (unat (Buffer 1)) 0 4"
  by (simp add: ProcessIncomingUMP_def Let_def)

lemma ProcessIncomingUMP_then_in_window:
  "InWindow (ReceivedSequenceCounters (snd (ProcessIncomingUMP s Buffer))) (PacketNumber_of Buffer)"
  by (simp add: ProcessIncomingUMP_def Let_def InWindow_def)

lemma ProcessIncomingUMP_times_once:
  "ProcessIncomingUMP_times (Suc n) s Buffer = ProcessIncomingUMP s Buffer"
proof (induction n arbitrary: s)
  case 0
  then show ?case by (simp add: Let_def)
next
  case (Suc n)
  have "ProcessIncomingUMP_times (Suc (Suc n)) s Buffer =
        (fst (ProcessIncomingUMP s Buffer) @ fst (ProcessIncomingUMP_times (Suc n) (snd (ProcessIncomingUMP s Buffer)) Buffer),
         snd (ProcessIncomingUMP_times (Suc n) (snd (ProcessIncomingUMP s Buffer)) Buffer))"
    by (simp add: Let_def)
  also have "ProcessIncomingUMP_times (Suc n) (snd (ProcessIncomingUMP s Buffer)) Buffer =
             ProcessIncomingUMP (snd (ProcessIncomingUMP s Buffer)) Buffer"
    by (rule Suc.IH)
  also have "\<dots> = ([], snd (ProcessIncomingUMP s Buffer))"
    by (rule ProcessIncomingUMP_replay [OF ProcessIncomingUMP_then_in_window])
  finally show ?case by simp
qed

lemma upt_split_first: "0 < n \<Longrightarrow> [0..<n] = 0 # map Suc [0..<n - 1]"
  by (cases n) (simp_all add: upt_conv_Cons map_Suc_upt del: upt_Suc)

lemma ParseUMPPayload_messages:
  "list_all whole_message msgs \<Longrightarrow>
   concat msgs = map (\<lambda>k. be32 Buffer (off + 4 * k)) [0..<n] \<Longrightarrow>
   ParseUMPPayload Buffer True (wc + n) wc off = msgs"
proof (induction msgs arbitrary: wc off n)
  case Nil
  then have "n = 0" by simp
  then show ?case by (simp add: ParseUMPPayload.simps [of Buffer True wc wc off])
next
  case (Cons m ms)
  let ?f = "\<lambda>k. be32 Buffer (off + 4 * k)"
  from Cons.prems(1) have wm: "whole_message m" and wms: "list_all whole_message ms" by simp_all
  define sz where "sz = UMPSize (MT_of (hd m))"
  have len: "length m = sz" and ne: "m \<noteq> []" using wm by (simp_all add: whole_message_def sz_def)
  have sz14: "1 \<le> sz \<and> sz \<le> 4" unfolding sz_def by (rule UMPSize_MT_range)
  have cat: "m @ concat ms = map ?f [0..<n]" using Cons.prems(2) by simp
  have nge: "sz \<le> n" using arg_cong [OF cat, of length] len by simp
  have m_eq: "m = map ?f [0..<sz]"
  proof -
    have "m = take sz (m @ concat ms)" using len by simp
    also have "\<dots> = take sz (map ?f [0..<n])" by (simp only: cat)
    also have "\<dots> = map ?f [0..<sz]" using nge by (simp add: take_map min_def)
    finally show ?thesis .
  qed
  have rest: "concat ms = map (\<lambda>k. be32 Buffer ((off + 4 * sz) + 4 * k)) [0..<n - sz]"
  proof -
    have "concat ms = drop sz (m @ concat ms)" using len by simp
    also have "\<dots> = drop sz (map ?f [0..<n])" by (simp only: cat)
    also have "\<dots> = map ?f [sz..<n]" by (simp add: drop_map)
    also have "[sz..<n] = map (\<lambda>i. i + sz) [0..<n - sz]"
      using nge by (simp add: map_add_upt)
    also have "map ?f (map (\<lambda>i. i + sz) [0..<n - sz]) =
               map (\<lambda>k. be32 Buffer ((off + 4 * sz) + 4 * k)) [0..<n - sz]"
      by (simp add: comp_def algebra_simps)
    finally show ?thesis .
  qed
  have IH: "ParseUMPPayload Buffer True (wc + n) (wc + sz) (off + 4 * sz) = ms"
    using Cons.IH [OF wms rest, of "wc + sz"] nge by simp
  have hd_m: "hd m = be32 Buffer off" using m_eq sz14 by (subst m_eq) (simp add: upt_conv_Cons hd_map)
  have size_eq: "UMPSize (MT_of (be32 Buffer off)) = sz" using hd_m sz_def by simp
  have lt: "wc < wc + n" using nge sz14 by simp
  from sz14 consider "sz = 1" | "sz = 2" | "sz = 3" | "sz = 4" by arith
  then show ?case
  proof cases
    case 1
    then have "m = [be32 Buffer off]" using m_eq by simp
    then show ?thesis using IH lt size_eq 1
      by (subst ParseUMPPayload.simps) (simp add: Let_def)
  next
    case 2
    then have "m = [be32 Buffer off, be32 Buffer (off + 4)]" using m_eq by (simp add: numeral_2_eq_2)
    then show ?thesis using IH lt size_eq 2
      by (subst ParseUMPPayload.simps) (simp add: Let_def)
  next
    case 3
    then have "m = [be32 Buffer off, be32 Buffer (off + 4), be32 Buffer (off + 8)]"
      using m_eq by (simp add: numeral_3_eq_3)
    then show ?thesis using IH lt size_eq 3
      by (subst ParseUMPPayload.simps) (simp add: Let_def)
  next
    case 4
    have "[0..<4] = [0, 1, 2, 3]" by (simp add: upt_rec)
    then have "m = [be32 Buffer off, be32 Buffer (off + 4), be32 Buffer (off + 8), be32 Buffer (off + 12)]"
      using m_eq 4 by simp
    then show ?thesis using IH lt size_eq 4
      by (subst ParseUMPPayload.simps) (simp add: Let_def)
  qed
qed

lemma window_ResetFECMemory: "window (ResetFECMemory s) = [0xFFFF, 0xFFFF, 0xFFFF, 0xFFFF, 0xFFFF]"
  by (simp add: window_def ResetFECMemory_def)

text \<open>
  Claim C3.  A UMP data packet whose number is one of the five entries of the dedup window
  makes no callback call and leaves the handler as it is.  A packet with a fresh number
  shifts the window left and appends its number at the end; when its payload is a run of
  whole UMP messages, the callback is called with each of them once, in order.  Feeding
  the same packet \<open>n + 1\<close> times in a row therefore gives exactly what feeding it once
  gives.  After \<open>ResetFECMemory\<close> the window holds five times \<open>0xFFFF\<close>.
\<close>

theorem ProcessIncomingUMP_dedup:
  "(PacketNumber_of Buffer \<in> set (window s) \<longrightarrow> ProcessIncomingUMP s Buffer = ([], s)) \<and>
   (PacketNumber_of Buffer \<notin> set (window s) \<longrightarrow>
      window (snd (ProcessIncomingUMP s Buffer)) = tl (window s) @ [PacketNumber_of Buffer] \<and>
      (UMPCallback s \<longrightarrow> list_all whole_message msgs \<longrightarrow>
       concat msgs = payload_words Buffer (unat (Buffer 1)) \<longrightarrow>
       fst (ProcessIncomingUMP s Buffer) = msgs)) \<and>
   ProcessIncomingUMP_times (Suc n) s Buffer = ProcessIncomingUMP s Buffer \<and>
   window (ResetFECMemory s) = [0xFFFF, 0xFFFF, 0xFFFF, 0xFFFF, 0xFFFF]"
proof (intro conjI impI)
  assume "PacketNumber_of Buffer \<in> set (window s)"
  then show "ProcessIncomingUMP s Buffer = ([], s)"
    by (simp add: ProcessIncomingUMP_replay InWindow_window)
next
  assume "PacketNumber_of Buffer \<notin> set (window s)"
  then show "window (snd (ProcessIncomingUMP s Buffer)) = tl (window s) @ [PacketNumber_of Buffer]"
    by (simp add: ProcessIncomingUMP_window InWindow_window)
next
  assume fresh: "PacketNumber_of Buffer \<notin> set (window s)" and cb: "UMPCallback s"
    and wm: "list_all whole_message msgs"
    and cat: "concat msgs = payload_words Buffer (unat (Buffer 1))"
  have "fst (ProcessIncomingUMP s Buffer) = ParseUMPPayload Buffer True (0 + unat (Buffer 1)) 0 4"
    using fresh cb by (simp add: ProcessIncomingUMP_fresh InWindow_window)
  also have "\<dots> = msgs"
    using cat by (intro ParseUMPPayload_messages [OF wm]) (simp add: payload_words_def)
  finally show "fst (ProcessIncomingUMP s Buffer) = msgs" .
next
  show "ProcessIncomingUMP_times (Suc n) s Buffer = ProcessIncomingUMP s Buffer"
    by (rule ProcessIncomingUMP_times_once)
next
  show "window (ResetFECMemory s) = [0xFFFF, 0xFFFF, 0xFFFF, 0xFFFF, 0xFFFF]"
    by (rule window_ResetFECMemory)
qed

lemma fresh_window: "window fresh = [0xFFFF, 0xFFFF, 0xFFFF, 0xFFFF, 0xFFFF]"
  by (simp add: fresh_def CNetUMPHandler_init_def Let_def SelectErrorCorrectionMode_def
        window_def ResetFECMemory_def)

lemma fresh_callback: "UMPCallback fresh"
  by (simp add: fresh_def CNetUMPHandler_init_def Let_def SelectErrorCorrectionMode_def
        ResetFECMemory_def)

theorem ProcessIncomingUMP_dedup_witness:
  "PacketNumber_of (buffer_of [0xFF, 0x01, 0x00, 0x07, 0x20, 0x90, 0x40, 0x40]) \<notin> set (window fresh) \<and>
   fst (ProcessIncomingUMP fresh (buffer_of [0xFF, 0x01, 0x00, 0x07, 0x20, 0x90, 0x40, 0x40])) = [[0x20904040]] \<and>
   window (snd (ProcessIncomingUMP fresh (buffer_of [0xFF, 0x01, 0x00, 0x07, 0x20, 0x90, 0x40, 0x40]))) =
     [0xFFFF, 0xFFFF, 0xFFFF, 0xFFFF, 7] \<and>
   fst (ProcessIncomingUMP_times 3 fresh (buffer_of [0xFF, 0x01, 0x00, 0x07, 0x20, 0x90, 0x40, 0x40])) =
     [[0x20904040]] \<and>
   fst (ProcessIncomingUMP (snd (ProcessIncomingUMP fresh (buffer_of [0xFF, 0x01, 0x00, 0x07, 0x20, 0x90, 0x40, 0x40])))
          (buffer_of [0xFF, 0x01, 0x00, 0x07, 0x20, 0x90, 0x40, 0x40])) = []"
proof -
  let ?B = "buffer_of [0xFF, 0x01, 0x00, 0x07, 0x20, 0x90, 0x40, 0x40]"
  have num: "PacketNumber_of ?B = 7" by (simp add: PacketNumber_of_def buffer_of_def)
  have len: "unat (?B 1) = 1" by (simp add: buffer_of_def)
  have pw: "payload_words ?B 1 = [0x20904040]" by (simp add: payload_words_def be32_def buffer_of_def)
  have wm: "list_all whole_message [[0x20904040]]" by (simp add: whole_message_def UMPSize_def MT_of_def)
  note T1 = ProcessIncomingUMP_dedup [of ?B fresh "[[0x20904040]]" 2]
  note T2 = ProcessIncomingUMP_dedup [of ?B "snd (ProcessIncomingUMP fresh ?B)" "[]" 0]
  have a: "PacketNumber_of ?B \<notin> set (window fresh)" by (simp add: num fresh_window)
  have b: "fst (ProcessIncomingUMP fresh ?B) = [[0x20904040]]"
    using T1 a fresh_callback wm pw len by simp
  have c: "window (snd (ProcessIncomingUMP fresh ?B)) = [0xFFFF, 0xFFFF, 0xFFFF, 0xFFFF, 7]"
    using T1 a by (simp add: fresh_window num)
  have d: "fst (ProcessIncomingUMP_times 3 fresh ?B) = [[0x20904040]]"
    using T1 b by (simp add: numeral_3_eq_3)
  have e: "fst (ProcessIncomingUMP (snd (ProcessIncomingUMP fresh ?B)) ?B) = []"
    using T2 c by (simp add: num)
  show ?thesis using a b c d e by simp
qed

subsection \<open>GenerateUMPCommand\<close>

lemma ucast_down_add: "(ucast (a + b :: u32) :: u16) = ucast a + ucast b"
proof -
  have m: "(of_nat (n mod 2 ^ 32) :: u16) = of_nat n" for n :: nat
    by (simp add: word_of_nat_eq_iff take_bit_eq_mod mod_mod_cancel)
  have "(ucast (a + b) :: u16) = of_nat (unat (a + b))" by simp
  also have "unat (a + b) = (unat a + unat b) mod 2 ^ 32" by (simp add: unat_word_ariths)
  also have "(of_nat ((unat a + unat b) mod 2 ^ 32) :: u16) = of_nat (unat a + unat b)"
    by (rule m)
  also have "\<dots> = ucast a + ucast b" by simp
  finally show ?thesis .
qed

lemma ucast_push16: "(ucast (push_bit 16 (x :: u32)) :: u16) = 0"
  by (rule bit_word_eqI) (simp add: bit_ucast_iff bit_push_bit_iff)

lemma ucast_ucast16: "(ucast (ucast (c :: u16) :: u32) :: u16) = c"
  by (rule bit_word_eqI) (simp add: bit_ucast_iff)

lemma packet_number_UMPHeader: "packet_number (UMPHeader k c) = c"
proof -
  have "(ucast (0xFF000000 :: u32) :: u16) = 0" by simp
  then show ?thesis
    unfolding packet_number_def UMPHeader_def
    by (simp only: ucast_down_add ucast_push16 ucast_ucast16) simp
qed

lemma CopyRest_length: "length (fst (CopyRest fifo q k)) = k"
  by (induction k arbitrary: q) (simp_all add: Let_def)

lemma DrainFIFO_length:
  "length Payload \<le> 64 \<Longrightarrow> length (fst (DrainFIFO fifo e p Payload)) \<le> 64"
proof (induction fifo e p Payload rule: DrainFIFO.induct)
  case (1 fifo UMPBlockEnd TempPtr Payload)
  show ?case
  proof (cases "TempPtr \<noteq> UMPBlockEnd \<and> length Payload + UMPSize (MT_of (fifo TempPtr)) < 65")
    case False
    then have "DrainFIFO fifo UMPBlockEnd TempPtr Payload = (Payload, TempPtr)"
      by (subst DrainFIFO.simps) (auto simp: Let_def)
    then show ?thesis using "1.prems" by simp
  next
    case True
    let ?r = "CopyRest fifo (fifo_next TempPtr) (UMPSize (MT_of (fifo TempPtr)) - 1)"
    have step: "DrainFIFO fifo UMPBlockEnd TempPtr Payload =
                DrainFIFO fifo UMPBlockEnd (snd ?r) (Payload @ fifo TempPtr # fst ?r)"
      using True by (subst DrainFIFO.simps) (simp add: Let_def)
    have "length (Payload @ fifo TempPtr # fst ?r) \<le> 64"
      using True UMPSize_MT_range [of "fifo TempPtr"] by (simp add: CopyRest_length)
    then have "length (fst (DrainFIFO fifo UMPBlockEnd (snd ?r) (Payload @ fifo TempPtr # fst ?r))) \<le> 64"
      using True by (intro "1.IH" [OF _ refl refl _ refl]) simp_all
    then show ?thesis by (simp only: step)
  qed
qed

lemma NewUMPCommand_of_length: "length (NewUMPCommand_of s) \<le> 65"
  using DrainFIFO_length [of "[]"] by (simp add: NewUMPCommand_of_def Drained_def)

lemma GenerateUMPCommand_empty:
  "WritePtr (UMP_FIFO_TO_NET s) = ReadPtr (UMP_FIFO_TO_NET s) \<Longrightarrow> GenerateUMPCommand s = Inr (0, [], s)"
  by (simp add: GenerateUMPCommand_def)

lemma GenerateUMPCommand_noFEC:
  assumes "WritePtr (UMP_FIFO_TO_NET s) \<noteq> ReadPtr (UMP_FIFO_TO_NET s)"
    and "ErrorCorrectionMode s \<noteq> ERROR_CORRECTION_FEC"
  shows "GenerateUMPCommand s =
           Inr (length (NewUMPCommand_of s) + 1, UMP_SIGNATURE # NewUMPCommand_of s,
                s\<lparr>UMP_FIFO_TO_NET := (UMP_FIFO_TO_NET s)\<lparr>ReadPtr := snd (Drained s)\<rparr>,
                  UMPSequenceCounter := UMPSequenceCounter s + 1\<rparr>)"
  using assms by (simp add: GenerateUMPCommand_def Let_def NewUMPCommand_of_def Drained_def)

lemma GenerateUMPCommand_FEC:
  assumes "WritePtr (UMP_FIFO_TO_NET s) \<noteq> ReadPtr (UMP_FIFO_TO_NET s)"
    and "ErrorCorrectionMode s = ERROR_CORRECTION_FEC"
    and "length (NewUMPCommand_of s) < 65"
  shows "GenerateUMPCommand s =
           Inr (length (FECTail ((FECMemory s)(NextFECSlot s :=
                          \<lparr>Filled = True, Size = length (NewUMPCommand_of s), Packet = NewUMPCommand_of s\<rparr>))
                        (if NextFECSlot s + 1 \<ge> NUM_FEC_ENTRIES then 0 else NextFECSlot s + 1)) + 1,
                UMP_SIGNATURE # FECTail ((FECMemory s)(NextFECSlot s :=
                          \<lparr>Filled = True, Size = length (NewUMPCommand_of s), Packet = NewUMPCommand_of s\<rparr>))
                        (if NextFECSlot s + 1 \<ge> NUM_FEC_ENTRIES then 0 else NextFECSlot s + 1),
                s\<lparr>UMP_FIFO_TO_NET := (UMP_FIFO_TO_NET s)\<lparr>ReadPtr := snd (Drained s)\<rparr>,
                  UMPSequenceCounter := UMPSequenceCounter s + 1,
                  FECMemory := (FECMemory s)(NextFECSlot s :=
                          \<lparr>Filled = True, Size = length (NewUMPCommand_of s), Packet = NewUMPCommand_of s\<rparr>),
                  NextFECSlot := (if NextFECSlot s + 1 \<ge> NUM_FEC_ENTRIES then 0 else NextFECSlot s + 1)\<rparr>)"
  using assms by (simp add: GenerateUMPCommand_def Let_def NewUMPCommand_of_def Drained_def)

lemma GenerateUMPCommand_FEC_overflow:
  assumes "WritePtr (UMP_FIFO_TO_NET s) \<noteq> ReadPtr (UMP_FIFO_TO_NET s)"
    and "ErrorCorrectionMode s = ERROR_CORRECTION_FEC"
    and "\<not> length (NewUMPCommand_of s) < 65"
  shows "GenerateUMPCommand s = Inl (OutOfBounds 65)"
  using assms by (simp add: GenerateUMPCommand_def Let_def NewUMPCommand_of_def Drained_def)

lemma FECTail_ring_view: "n < NUM_FEC_ENTRIES \<Longrightarrow> FECTail mem n = concat (ring_view mem n)"
proof -
  assume "n < NUM_FEC_ENTRIES"
  then have "n = 0 \<or> n = 1 \<or> n = 2 \<or> n = 3 \<or> n = 4" by arith
  then show ?thesis
    by (elim disjE) (simp_all add: FECTail_def ring_view_def numeral_2_eq_2 [symmetric])
qed

lemma ring_view_store:
  assumes "n < NUM_FEC_ENTRIES"
    and "list_all (\<lambda>i. Filled (mem i)) [0, 1, 2, 3, 4] \<or>
         list_all (\<lambda>i. Filled (mem i) = (i < n)) [0, 1, 2, 3, 4]"
  shows "ring_view (mem(n := \<lparr>Filled = True, Size = length New, Packet = New\<rparr>))
           (if n + 1 \<ge> NUM_FEC_ENTRIES then 0 else n + 1) =
         drop (length (ring_view mem n) + 1 - NUM_FEC_ENTRIES) (ring_view mem n @ [New])"
proof -
  from assms(1) have "n = 0 \<or> n = 1 \<or> n = 2 \<or> n = 3 \<or> n = 4" by arith
  then show ?thesis
    using assms(2) by (elim disjE) (auto simp: ring_view_def numeral_2_eq_2 [symmetric])
qed

lemma ring_store_ok:
  assumes "n < NUM_FEC_ENTRIES"
    and "list_all (\<lambda>i. Filled (mem i)) [0, 1, 2, 3, 4] \<or>
         list_all (\<lambda>i. Filled (mem i) = (i < n)) [0, 1, 2, 3, 4]"
  shows "list_all (\<lambda>i. Filled ((mem(n := \<lparr>Filled = True, Size = k, Packet = New\<rparr>)) i)) [0, 1, 2, 3, 4] \<or>
         list_all (\<lambda>i. Filled ((mem(n := \<lparr>Filled = True, Size = k, Packet = New\<rparr>)) i) =
                       (i < (if n + 1 \<ge> NUM_FEC_ENTRIES then 0 else n + 1))) [0, 1, 2, 3, 4]"
proof -
  from assms(1) have "n = 0 \<or> n = 1 \<or> n = 2 \<or> n = 3 \<or> n = 4" by arith
  then show ?thesis
    using assms(2) by (elim disjE) (auto simp: numeral_2_eq_2 [symmetric])
qed

lemma ring_view_length: "length (ring_view mem n) \<le> NUM_FEC_ENTRIES"
proof -
  have "length (filter P [a, b, c, d, e]) \<le> 5" for P :: "nat \<Rightarrow> bool" and a b c d e
    using length_filter_le [of P "[a, b, c, d, e]"] by simp
  then show ?thesis by (simp add: ring_view_def)
qed

lemma FECTail_last:
  assumes "n < NUM_FEC_ENTRIES"
  shows "\<exists>pre. FECTail (mem(n := \<lparr>Filled = True, Size = length New, Packet = New\<rparr>))
                 (if n + 1 \<ge> NUM_FEC_ENTRIES then 0 else n + 1) = pre @ New"
proof -
  from assms have "n = 0 \<or> n = 1 \<or> n = 2 \<or> n = 3 \<or> n = 4" by arith
  then show ?thesis
    by (elim disjE) (simp_all add: FECTail_def numeral_2_eq_2 [symmetric])
qed

lemma GenerateUMPCommand_returns:
  "(\<exists>r. GenerateUMPCommand s = Inr r) \<longleftrightarrow>
   \<not> (WritePtr (UMP_FIFO_TO_NET s) \<noteq> ReadPtr (UMP_FIFO_TO_NET s) \<and>
      ErrorCorrectionMode s = ERROR_CORRECTION_FEC \<and> length (NewUMPCommand_of s) = 65)"
proof (cases "WritePtr (UMP_FIFO_TO_NET s) = ReadPtr (UMP_FIFO_TO_NET s)")
  case True
  then show ?thesis by (simp add: GenerateUMPCommand_empty)
next
  case ne: False
  show ?thesis
  proof (cases "ErrorCorrectionMode s = ERROR_CORRECTION_FEC")
    case False
    then show ?thesis using ne by (simp add: GenerateUMPCommand_noFEC)
  next
    case fec: True
    show ?thesis
    proof (cases "length (NewUMPCommand_of s) < 65")
      case True
      then show ?thesis using ne fec by (simp add: GenerateUMPCommand_FEC)
    next
      case False
      then have "length (NewUMPCommand_of s) = 65" using NewUMPCommand_of_length [of s] by simp
      then show ?thesis using ne fec False by (simp add: GenerateUMPCommand_FEC_overflow)
    qed
  qed
qed

lemma GenerateUMPCommand_built:
  assumes nx: "NextFECSlot s < NUM_FEC_ENTRIES"
    and ne: "WritePtr (UMP_FIFO_TO_NET s) \<noteq> ReadPtr (UMP_FIFO_TO_NET s)"
    and g: "GenerateUMPCommand s = Inr (n, dg, s')"
  shows "n \<noteq> 0 \<and> n = length dg \<and> (\<exists>pre. dg = pre @ NewUMPCommand_of s) \<and>
         UMPSequenceCounter s' = UMPSequenceCounter s + 1"
proof (cases "ErrorCorrectionMode s = ERROR_CORRECTION_FEC")
  case False
  have "dg = [UMP_SIGNATURE] @ NewUMPCommand_of s" "n = length dg"
       "UMPSequenceCounter s' = UMPSequenceCounter s + 1"
    using g GenerateUMPCommand_noFEC [OF ne False] by auto
  then show ?thesis by blast
next
  case fec: True
  have lt: "length (NewUMPCommand_of s) < 65"
    using g GenerateUMPCommand_FEC_overflow [OF ne fec] by (cases "length (NewUMPCommand_of s) < 65") simp_all
  obtain pre where pre: "FECTail ((FECMemory s)(NextFECSlot s :=
        \<lparr>Filled = True, Size = length (NewUMPCommand_of s), Packet = NewUMPCommand_of s\<rparr>))
      (if NextFECSlot s + 1 \<ge> NUM_FEC_ENTRIES then 0 else NextFECSlot s + 1) = pre @ NewUMPCommand_of s"
    using FECTail_last [OF nx] by blast
  have "dg = (UMP_SIGNATURE # pre) @ NewUMPCommand_of s" "n = length dg"
       "UMPSequenceCounter s' = UMPSequenceCounter s + 1"
    using g pre unfolding GenerateUMPCommand_FEC [OF ne fec lt] by auto
  then show ?thesis by blast
qed

lemma counter_resets:
  "UMPSequenceCounter (ResetFECMemory s) = 0"
  "UMPSequenceCounter (snd (InitiateSession s DestIP DestPort LocalPort IsInitiator True)) = 0"
  "IsInitiatorNode s \<Longrightarrow> UMPSequenceCounter (RestartSessionInitiator s) = 0"
  by (simp_all add: ResetFECMemory_def InitiateSession_def RestartSessionInitiator_def
        PrepareTimerEvent_def CloseSockets_def Let_def)

text \<open>
  Claim C1.  A call of \<open>GenerateUMPCommand\<close> that returns 0 is a call on an empty FIFO
  and leaves the handler, the sequence counter with it, untouched.  A call that returns a
  non-zero count has built a new packet, the last one of the datagram, whose packet number
  is the sequence counter on entry, and leaves the counter one higher (modulo \<open>2^16\<close>,
  the counter being a 16-bit word) however many earlier packets the FEC tail repeats.  So
  packets built one after the other carry consecutive numbers.  \<open>ResetFECMemory\<close>, a
  successful \<open>InitiateSession\<close> and \<open>RestartSessionInitiator\<close> on an initiator set the
  counter to 0.  The call returns unless it is the FEC-mode call with a 64-word payload
  (lemma \<open>GenerateUMPCommand_returns\<close>).
\<close>

theorem GenerateUMPCommand_sequence:
  "(NextFECSlot s < NUM_FEC_ENTRIES \<longrightarrow> GenerateUMPCommand s = Inr (n, dg, s') \<longrightarrow>
      (n = 0 \<longleftrightarrow> WritePtr (UMP_FIFO_TO_NET s) = ReadPtr (UMP_FIFO_TO_NET s)) \<and>
      (n = 0 \<longrightarrow> s' = s) \<and>
      (n \<noteq> 0 \<longrightarrow> (\<exists>pre. dg = pre @ NewUMPCommand_of s) \<and>
                 packet_number (hd (NewUMPCommand_of s)) = UMPSequenceCounter s \<and>
                 UMPSequenceCounter s' = UMPSequenceCounter s + 1)) \<and>
   UMPSequenceCounter (ResetFECMemory s) = 0 \<and>
   UMPSequenceCounter (snd (InitiateSession s DestIP DestPort LocalPort IsInitiator True)) = 0 \<and>
   (IsInitiatorNode s \<longrightarrow> UMPSequenceCounter (RestartSessionInitiator s) = 0)"
proof -
  have num: "packet_number (hd (NewUMPCommand_of s)) = UMPSequenceCounter s"
    by (simp add: NewUMPCommand_of_def packet_number_UMPHeader)
  have main: "(n = 0 \<longleftrightarrow> WritePtr (UMP_FIFO_TO_NET s) = ReadPtr (UMP_FIFO_TO_NET s)) \<and>
      (n = 0 \<longrightarrow> s' = s) \<and>
      (n \<noteq> 0 \<longrightarrow> (\<exists>pre. dg = pre @ NewUMPCommand_of s) \<and>
                 packet_number (hd (NewUMPCommand_of s)) = UMPSequenceCounter s \<and>
                 UMPSequenceCounter s' = UMPSequenceCounter s + 1)"
    if nx: "NextFECSlot s < NUM_FEC_ENTRIES" and g: "GenerateUMPCommand s = Inr (n, dg, s')"
  proof (cases "WritePtr (UMP_FIFO_TO_NET s) = ReadPtr (UMP_FIFO_TO_NET s)")
    case True
    then show ?thesis using g by (simp add: GenerateUMPCommand_empty)
  next
    case False
    from GenerateUMPCommand_built [OF nx False g] False num show ?thesis by auto
  qed
  show ?thesis using main counter_resets [of s] by blast
qed

lemma fec_ok_Reset: "fec_ok (ResetFECMemory s)" "FECView (ResetFECMemory s) = []"
  by (simp_all add: fec_ok_def FECView_def ring_view_def ResetFECMemory_def)

lemma one_queued_eval:
  "NextFECSlot one_queued < NUM_FEC_ENTRIES" "UMPSequenceCounter one_queued = 0"
  "fec_ok one_queued" "ErrorCorrectionMode one_queued = ERROR_CORRECTION_FEC"
  "FECView one_queued = []"
  "NewUMPCommand_of one_queued = [0xFF010000, 0x20904040]"
  "case GenerateUMPCommand one_queued of Inl e \<Rightarrow> False
   | Inr (n, dg, s') \<Rightarrow> n = 3 \<and> dg = [0x4D494449, 0xFF010000, 0x20904040]"
  by code_simp+

theorem GenerateUMPCommand_sequence_witness:
  "NextFECSlot one_queued < NUM_FEC_ENTRIES \<and>
   (case GenerateUMPCommand one_queued of Inl e \<Rightarrow> False
    | Inr (n, dg, s') \<Rightarrow>
        n = 3 \<and> dg = [0x4D494449, 0xFF010000, 0x20904040] \<and> UMPSequenceCounter s' = 1) \<and>
   packet_number (hd (NewUMPCommand_of one_queued)) = 0"
proof -
  obtain n dg s' where g: "GenerateUMPCommand one_queued = Inr (n, dg, s')"
    and v: "n = 3" "dg = [0x4D494449, 0xFF010000, 0x20904040]"
    using one_queued_eval(7) by (cases "GenerateUMPCommand one_queued") auto
  from GenerateUMPCommand_sequence [of one_queued n dg s'] one_queued_eval(1) g v
  have "UMPSequenceCounter s' = UMPSequenceCounter one_queued + 1"
    and "packet_number (hd (NewUMPCommand_of one_queued)) = UMPSequenceCounter one_queued"
    by simp_all
  then show ?thesis using g v one_queued_eval(1,2) by simp
qed

lemma GenerateUMPCommand_FEC_tail_core:
  assumes ok: "fec_ok s" and fec: "ErrorCorrectionMode s = ERROR_CORRECTION_FEC"
    and g: "GenerateUMPCommand s = Inr (n, dg, s')" and n0: "n \<noteq> 0"
  shows "dg = UMP_SIGNATURE # concat (FECView s') \<and> n = length dg \<and>
      FECView s' = drop (length (FECView s) + 1 - NUM_FEC_ENTRIES) (FECView s @ [NewUMPCommand_of s]) \<and>
      length (FECView s') \<le> NUM_FEC_ENTRIES \<and> fec_ok s'"
proof -
  have nx: "NextFECSlot s < NUM_FEC_ENTRIES"
    and pat: "list_all (\<lambda>i. Filled (FECMemory s i)) [0, 1, 2, 3, 4] \<or>
              list_all (\<lambda>i. Filled (FECMemory s i) = (i < NextFECSlot s)) [0, 1, 2, 3, 4]"
    using ok unfolding fec_ok_def by blast+
  have ne: "WritePtr (UMP_FIFO_TO_NET s) \<noteq> ReadPtr (UMP_FIFO_TO_NET s)"
    using g n0 by (auto simp: GenerateUMPCommand_empty)
  have lt: "length (NewUMPCommand_of s) < 65"
    using g GenerateUMPCommand_FEC_overflow [OF ne fec]
    by (cases "length (NewUMPCommand_of s) < 65") simp_all
  let ?New = "NewUMPCommand_of s"
  let ?mem = "(FECMemory s)(NextFECSlot s := \<lparr>Filled = True, Size = length ?New, Packet = ?New\<rparr>)"
  let ?next = "if NextFECSlot s + 1 \<ge> NUM_FEC_ENTRIES then 0 else NextFECSlot s + 1"
  have next_lt: "?next < NUM_FEC_ENTRIES" using nx by simp
  have dg: "dg = UMP_SIGNATURE # FECTail ?mem ?next" and n: "n = length dg"
    and mem': "FECMemory s' = ?mem" and next': "NextFECSlot s' = ?next"
    using g unfolding GenerateUMPCommand_FEC [OF ne fec lt] by auto
  have view': "FECView s' = ring_view ?mem ?next"
    by (simp only: FECView_def mem' next')
  have 1: "dg = UMP_SIGNATURE # concat (FECView s')"
    by (simp only: dg view' FECTail_ring_view [OF next_lt])
  have 2: "FECView s' = drop (length (FECView s) + 1 - NUM_FEC_ENTRIES) (FECView s @ [?New])"
    using ring_view_store [OF nx pat, of ?New] by (simp only: view' FECView_def [of s])
  have 3: "length (FECView s') \<le> NUM_FEC_ENTRIES"
    unfolding FECView_def by (rule ring_view_length)
  have 4: "fec_ok s'"
    unfolding fec_ok_def mem' next' using next_lt ring_store_ok [OF nx pat] by blast
  show ?thesis using 1 n 2 3 4 by blast
qed



subsection \<open>What holds in every reachable state\<close>

lemma fec_ok_cong:
  "FECMemory s' = FECMemory s \<Longrightarrow> NextFECSlot s' = NextFECSlot s \<Longrightarrow> fec_ok s' = fec_ok s"
  by (simp only: fec_ok_def)

lemma endpoint_inv_frame:
  assumes "endpoint_inv s"
    and "PeerClosedSession s' = PeerClosedSession s" and "FECMemory s' = FECMemory s"
    and "NextFECSlot s' = NextFECSlot s" and "UMP_FIFO_TO_NET s' = UMP_FIFO_TO_NET s"
    and "SessionState s' = SESSION_INVITE \<Longrightarrow>
           TimeOutRemote s' = TIMEOUT_RESET \<or>
           (SessionState s = SESSION_INVITE \<and> TimeOutRemote s' = TimeOutRemote s)"
  shows "endpoint_inv s'"
  using assms by (auto simp: endpoint_inv_def fec_ok_cong [of s' s])

lemma inv_init: "endpoint_inv (CNetUMPHandler_init raw cb inst)"
  by (simp add: endpoint_inv_def fec_ok_def CNetUMPHandler_init_def Let_def
        SelectErrorCorrectionMode_def ResetFECMemory_def)

lemma inv_ResetFECMemory:
  "endpoint_inv s \<Longrightarrow> endpoint_inv (ResetFECMemory s)"
  by (simp add: endpoint_inv_def fec_ok_Reset) (simp add: ResetFECMemory_def)

lemma inv_SetEndpointName: "endpoint_inv s \<Longrightarrow> endpoint_inv (SetEndpointName s Name)"
  by (erule endpoint_inv_frame) (auto simp: SetEndpointName_def split: if_splits)

lemma inv_SetProductInstanceID: "endpoint_inv s \<Longrightarrow> endpoint_inv (SetProductInstanceID s PIID)"
  by (erule endpoint_inv_frame) (auto simp: SetProductInstanceID_def split: if_splits)

lemma inv_InitiateSession:
  "endpoint_inv s \<Longrightarrow> endpoint_inv (snd (InitiateSession s DestIP DestPort LocalPort IsInitiator SocketOK))"
  by (erule endpoint_inv_frame) (auto simp: InitiateSession_def CloseSockets_def PrepareTimerEvent_def Let_def split: if_splits)

lemma inv_CloseSession: "endpoint_inv s \<Longrightarrow> endpoint_inv (snd (CloseSession s))"
  by (erule endpoint_inv_frame) (auto simp: CloseSession_def split: if_splits)

lemma inv_RestartSessionInitiator: "endpoint_inv s \<Longrightarrow> endpoint_inv (RestartSessionInitiator s)"
  by (erule endpoint_inv_frame) (auto simp: RestartSessionInitiator_def PrepareTimerEvent_def split: if_splits)

lemma inv_ReadAndResetConnectionLost: "endpoint_inv s \<Longrightarrow> endpoint_inv (snd (ReadAndResetConnectionLost s))"
  by (erule endpoint_inv_frame) (auto simp: ReadAndResetConnectionLost_def split: if_splits)

lemma inv_RemotePeerClosedSession: "endpoint_inv s \<Longrightarrow> endpoint_inv (snd (RemotePeerClosedSession s))"
  by (simp add: RemotePeerClosedSession_def Let_def endpoint_inv_def
        fec_ok_cong [of "s\<lparr>PeerClosedSession := False\<rparr>" s])

lemma inv_SelectErrorCorrectionMode: "endpoint_inv s \<Longrightarrow> endpoint_inv (SelectErrorCorrectionMode s m)"
  by (erule endpoint_inv_frame) (auto simp: SelectErrorCorrectionMode_def split: if_splits)

lemma inv_SetCallback: "endpoint_inv s \<Longrightarrow> endpoint_inv (SetCallback s cb inst)"
  by (erule endpoint_inv_frame) (auto simp: SetCallback_def Let_def split: if_splits)

lemma inv_SendUMPMessage:
  assumes "endpoint_inv s" shows "endpoint_inv (snd (SendUMPMessage s UMPData))"
proof (cases "SessionState s = SESSION_OPENED")
  case False
  then show ?thesis using assms by (simp add: SendUMPMessage_def)
next
  case True
  have w: "WritePtr (UMP_FIFO_TO_NET s) < UMP_FIFO_SIZE" using assms by (simp add: endpoint_inv_def)
  have "0 \<le> UMPSize (MT_of (UMPData 0))" by simp
  note L = SendUMPMessage_loop_spec [OF w this, of UMPData "UMP_FIFO_TO_NET s"]
  let ?f = "snd (SendUMPMessage_loop UMPData (UMPSize (MT_of (UMPData 0))) (UMP_FIFO_TO_NET s) 0
                  (WritePtr (UMP_FIFO_TO_NET s)))"
  have eq: "snd (SendUMPMessage s UMPData) = s\<lparr>UMP_FIFO_TO_NET := ?f\<rparr>"
    using True by (simp add: SendUMPMessage_def Let_def split_beta)
  have "ReadPtr ?f = ReadPtr (UMP_FIFO_TO_NET s)" "WritePtr ?f < UMP_FIFO_SIZE"
    using L w by (simp_all split: if_splits)
  then show ?thesis using assms unfolding eq
    by (simp add: endpoint_inv_def fec_ok_cong [of "s\<lparr>UMP_FIFO_TO_NET := ?f\<rparr>" s])
qed

lemma inv_upd:
  "endpoint_inv (s\<lparr>PINGDelayCounter := a\<rparr>) = endpoint_inv s"
  "endpoint_inv (s\<lparr>PINGIdCounter := b\<rparr>) = endpoint_inv s"
  "endpoint_inv (s\<lparr>InviteCount := c\<rparr>) = endpoint_inv s"
  "endpoint_inv (s\<lparr>SessionPartnerIP := d\<rparr>) = endpoint_inv s"
  "endpoint_inv (s\<lparr>UMPSequenceCounter := e\<rparr>) = endpoint_inv s"
  "endpoint_inv (PrepareTimerEvent s t) = endpoint_inv s"
  by (simp_all add: endpoint_inv_def fec_ok_def PrepareTimerEvent_def)

lemma inv_opened: "endpoint_inv s \<Longrightarrow> endpoint_inv (s\<lparr>SessionState := SESSION_OPENED\<rparr>)"
  by (erule endpoint_inv_frame) simp_all

lemma inv_timer: "endpoint_inv s \<Longrightarrow> endpoint_inv (RunSession_timer s)"
  by (erule endpoint_inv_frame) (auto simp: RunSession_timer_def Let_def split: if_splits)

lemma inv_timeout: "endpoint_inv s \<Longrightarrow> endpoint_inv (snd (RunSession_timeout s))"
  by (erule endpoint_inv_frame)
     (auto simp: RunSession_timeout_def RestartSessionInitiator_def PrepareTimerEvent_def Let_def
        split: if_splits)

lemma inv_DispatchCommand:
  "endpoint_inv (snd (snd st)) \<Longrightarrow> endpoint_inv (snd (snd (DispatchCommand rx p st)))"
  by (erule endpoint_inv_frame)
     (auto simp: DispatchCommand_def ProcessIncomingUMP_def Let_def split: if_splits)

lemma inv_ParseCommands:
  "endpoint_inv (snd (snd st)) \<Longrightarrow> endpoint_inv (snd (snd (ParseCommands rx p st)))"
proof (induction rx p st rule: ParseCommands.induct)
  case (1 rx PtrParse st)
  show ?case
  proof (cases "int PtrParse < RecvSize rx")
    case False
    then have "ParseCommands rx PtrParse st = st" by (subst ParseCommands.simps) simp
    then show ?thesis using "1.prems" by simp
  next
    case True
    let ?n = "PtrParse + 4 + 4 * unat (ReceptionBuffer rx (PtrParse + 1))"
    have step: "ParseCommands rx PtrParse st = ParseCommands rx ?n (DispatchCommand rx PtrParse st)"
      using True by (subst ParseCommands.simps) (simp add: Let_def)
    have "endpoint_inv (snd (snd (ParseCommands rx ?n (DispatchCommand rx PtrParse st))))"
      by (rule "1.IH" [OF True refl inv_DispatchCommand [OF "1.prems"]])
    then show ?thesis by (simp only: step)
  qed
qed

lemma inv_receive: "endpoint_inv s \<Longrightarrow> endpoint_inv (snd (snd (RunSession_receive s DataAvail)))"
  by (auto simp: RunSession_receive_def intro!: inv_ParseCommands split: option.splits)

lemma inv_invitation: "endpoint_inv s \<Longrightarrow> endpoint_inv (snd (RunSession_invitation fl s))"
proof -
  assume i: "endpoint_inv s"
  have "endpoint_inv (s\<lparr>TimeOutRemote := TIMEOUT_RESET, SessionState := SESSION_OPENED,
                         SessionPartnerIP := a, SessionPartnerPort := b\<rparr>)" for a b
    using i by (rule endpoint_inv_frame) simp_all
  then show ?thesis using i
    by (simp add: RunSession_invitation_def Let_def inv_ResetFECMemory)
qed

lemma inv_bye: "endpoint_inv s \<Longrightarrow> endpoint_inv (snd (RunSession_bye fl s))"
  by (erule endpoint_inv_frame)
     (auto simp: RunSession_bye_def RestartSessionInitiator_def PrepareTimerEvent_def Let_def
        split: if_splits)

lemma CopyRest_ptr: "q < UMP_FIFO_SIZE \<Longrightarrow> snd (CopyRest fifo q k) < UMP_FIFO_SIZE"
  by (induction k arbitrary: q) (simp_all add: Let_def fifo_next_less)

lemma DrainFIFO_ptr: "p < UMP_FIFO_SIZE \<Longrightarrow> snd (DrainFIFO fifo e p Payload) < UMP_FIFO_SIZE"
proof (induction fifo e p Payload rule: DrainFIFO.induct)
  case (1 fifo UMPBlockEnd TempPtr Payload)
  show ?case
  proof (cases "TempPtr \<noteq> UMPBlockEnd \<and> length Payload + UMPSize (MT_of (fifo TempPtr)) < 65")
    case False
    then have "DrainFIFO fifo UMPBlockEnd TempPtr Payload = (Payload, TempPtr)"
      by (subst DrainFIFO.simps) (auto simp: Let_def)
    then show ?thesis using "1.prems" by simp
  next
    case True
    let ?r = "CopyRest fifo (fifo_next TempPtr) (UMPSize (MT_of (fifo TempPtr)) - 1)"
    have step: "DrainFIFO fifo UMPBlockEnd TempPtr Payload =
                DrainFIFO fifo UMPBlockEnd (snd ?r) (Payload @ fifo TempPtr # fst ?r)"
      using True by (subst DrainFIFO.simps) (simp add: Let_def)
    have "snd ?r < UMP_FIFO_SIZE" by (rule CopyRest_ptr [OF fifo_next_less])
    then have "snd (DrainFIFO fifo UMPBlockEnd (snd ?r) (Payload @ fifo TempPtr # fst ?r)) < UMP_FIFO_SIZE"
      using True by (intro "1.IH" [OF _ refl refl _ refl]) simp_all
    then show ?thesis by (simp only: step)
  qed
qed

lemma inv_GenerateUMPCommand:
  assumes i: "endpoint_inv s" and g: "GenerateUMPCommand s = Inr (n, dg, s')"
  shows "endpoint_inv s'"
proof (cases "WritePtr (UMP_FIFO_TO_NET s) = ReadPtr (UMP_FIFO_TO_NET s)")
  case True
  then show ?thesis using i g by (simp add: GenerateUMPCommand_empty)
next
  case ne: False
  have rp: "snd (Drained s) < UMP_FIFO_SIZE"
    unfolding Drained_def using i by (intro DrainFIFO_ptr) (simp add: endpoint_inv_def)
  have ok: "fec_ok s" using i by (simp add: endpoint_inv_def)
  show ?thesis
  proof (cases "ErrorCorrectionMode s = ERROR_CORRECTION_FEC")
    case False
    have "s' = s\<lparr>UMP_FIFO_TO_NET := (UMP_FIFO_TO_NET s)\<lparr>ReadPtr := snd (Drained s)\<rparr>,
                  UMPSequenceCounter := UMPSequenceCounter s + 1\<rparr>"
      using g unfolding GenerateUMPCommand_noFEC [OF ne False] by simp
    then show ?thesis using i rp
      by (simp add: endpoint_inv_def
            fec_ok_cong [of "s\<lparr>UMP_FIFO_TO_NET := (UMP_FIFO_TO_NET s)\<lparr>ReadPtr := snd (Drained s)\<rparr>,
                  UMPSequenceCounter := UMPSequenceCounter s + 1\<rparr>" s])
  next
    case fec: True
    have lt: "length (NewUMPCommand_of s) < 65"
      using g GenerateUMPCommand_FEC_overflow [OF ne fec]
      by (cases "length (NewUMPCommand_of s) < 65") simp_all
    have nx: "NextFECSlot s < NUM_FEC_ENTRIES" using ok by (simp add: fec_ok_def)
    have n0: "n \<noteq> 0" using GenerateUMPCommand_built [OF nx ne g] by auto
    have ok': "fec_ok s'"
      using GenerateUMPCommand_FEC_tail_core [OF ok fec g n0] by simp
    have flds: "PeerClosedSession s' = PeerClosedSession s"
      "WritePtr (UMP_FIFO_TO_NET s') = WritePtr (UMP_FIFO_TO_NET s)"
      "ReadPtr (UMP_FIFO_TO_NET s') = snd (Drained s)"
      "SessionState s' = SessionState s" "TimeOutRemote s' = TimeOutRemote s"
      using g unfolding GenerateUMPCommand_FEC [OF ne fec lt] by auto
    show ?thesis using i rp ok' by (simp add: endpoint_inv_def flds)
  qed
qed

lemma inv_accept:
  "endpoint_inv s \<Longrightarrow> endpoint_inv (s\<lparr>SessionPartnerIP := a, SessionState := SESSION_OPENED\<rparr>)"
  by (erule endpoint_inv_frame) simp_all

lemma inv_state_machine:
  assumes i: "endpoint_inv s" and r: "RunSession_state_machine fl s = Inr (evs, s')"
  shows "endpoint_inv s'"
proof (cases "SessionState s = SESSION_CLOSED")
  case True
  then show ?thesis using i r by (simp add: RunSession_state_machine_def)
next
  case False
  show ?thesis
  proof (cases "GenerateUMPCommand s")
    case (Inl e)
    then show ?thesis using r False by (simp add: RunSession_state_machine_def)
  next
    case (Inr t)
    obtain n dg s1 where t: "t = (n, dg, s1)" by (cases t)
    have i1: "endpoint_inv s1" using inv_GenerateUMPCommand [OF i] Inr t by simp
    show ?thesis
      using r False Inr t i1
      by (auto simp: RunSession_state_machine_def Let_def inv_upd inv_accept inv_ResetFECMemory
            split: if_splits)
  qed
qed

lemma inv_RunSession:
  assumes i: "endpoint_inv s" and r: "RunSession s DataAvail = Inr (evs, s')"
  shows "endpoint_inv s'"
proof (cases "SocketLocked s")
  case True
  then show ?thesis using i r by (simp add: RunSession_def)
next
  case False
  let ?r3 = "RunSession_receive (snd (RunSession_timeout (RunSession_timer s))) DataAvail"
  let ?s6 = "snd (RunSession_bye (fst ?r3) (snd (RunSession_invitation (fst ?r3) (snd (snd ?r3)))))"
  have i6: "endpoint_inv ?s6"
    by (intro inv_bye inv_invitation inv_receive inv_timeout inv_timer i)
  obtain ev7 where "RunSession_state_machine (fst ?r3) ?s6 = Inr (ev7, s')"
    using r False by (auto simp: RunSession_def Let_def split: sum.splits)
  then show ?thesis by (rule inv_state_machine [OF i6])
qed

lemma reach_inv: "reach s \<Longrightarrow> endpoint_inv s"
proof (induction rule: reach.induct)
  case (reach_RunSession s DataAvail evs s')
  then show ?case by (blast intro: inv_RunSession)
qed (simp_all add: inv_init inv_SetEndpointName inv_SetProductInstanceID inv_InitiateSession
       inv_CloseSession inv_RestartSessionInitiator inv_ReadAndResetConnectionLost
       inv_RemotePeerClosedSession inv_SendUMPMessage inv_SelectErrorCorrectionMode inv_SetCallback)

lemma bye_from_peer:
  "BYEReceived fl \<Longrightarrow> SenderIP fl = SessionPartnerIP s \<Longrightarrow> SenderPort fl = SessionPartnerPort s \<Longrightarrow>
   ConnectionLost (snd (RunSession_bye fl s)) \<and>
   PeerClosedSession (snd (RunSession_bye fl s)) = PeerClosedSession s"
  by (simp add: RunSession_bye_def RestartSessionInitiator_def PrepareTimerEvent_def Let_def)

text \<open>
  Claim C10.  In every state the endpoint reaches, through any sequence of public methods
  and any socket traffic, \<open>PeerClosedSession\<close> is false, so \<open>RemotePeerClosedSession\<close>
  answers false.  The block of \<open>RunSession\<close> that handles a BYE from the session
  partner raises \<open>ConnectionLost\<close> and leaves \<open>PeerClosedSession\<close> as it was.
\<close>

theorem PeerClosedSession_always_false:
  "(reach s \<longrightarrow> \<not> PeerClosedSession s \<and> \<not> fst (RemotePeerClosedSession s)) \<and>
   (BYEReceived fl \<longrightarrow> SenderIP fl = SessionPartnerIP s \<longrightarrow> SenderPort fl = SessionPartnerPort s \<longrightarrow>
      ConnectionLost (snd (RunSession_bye fl s)) \<and>
      PeerClosedSession (snd (RunSession_bye fl s)) = PeerClosedSession s)"
proof -
  have "\<not> PeerClosedSession s \<and> \<not> fst (RemotePeerClosedSession s)" if "reach s"
    using reach_inv [OF that] by (simp add: endpoint_inv_def RemotePeerClosedSession_def Let_def)
  then show ?thesis using bye_from_peer [of fl s] by blast
qed

theorem PeerClosedSession_always_false_witness:
  "reach fresh \<and> \<not> PeerClosedSession fresh \<and> \<not> fst (RemotePeerClosedSession fresh) \<and>
   BYEReceived (decoder_init\<lparr>BYEReceived := True\<rparr>) \<and>
   SenderIP (decoder_init\<lparr>BYEReceived := True\<rparr>) = SessionPartnerIP fresh \<and>
   SenderPort (decoder_init\<lparr>BYEReceived := True\<rparr>) = SessionPartnerPort fresh \<and>
   ConnectionLost (snd (RunSession_bye (decoder_init\<lparr>BYEReceived := True\<rparr>) fresh)) \<and>
   \<not> PeerClosedSession (snd (RunSession_bye (decoder_init\<lparr>BYEReceived := True\<rparr>) fresh))"
proof -
  have r: "reach fresh" unfolding fresh_def by (rule reach_init)
  have f: "SessionPartnerIP fresh = 0" "SessionPartnerPort fresh = 0"
    by (simp_all add: fresh_def CNetUMPHandler_init_def Let_def SelectErrorCorrectionMode_def
          ResetFECMemory_def)
  have d: "BYEReceived (decoder_init\<lparr>BYEReceived := True\<rparr>)"
    "SenderIP (decoder_init\<lparr>BYEReceived := True\<rparr>) = 0"
    "SenderPort (decoder_init\<lparr>BYEReceived := True\<rparr>) = 0"
    by (simp_all add: decoder_init_def)
  show ?thesis
    using PeerClosedSession_always_false [of fresh "decoder_init\<lparr>BYEReceived := True\<rparr>"] r f d
    by simp
qed

subsection \<open>RunSession: single ticks\<close>

lemma timer_fields:
  "SessionState (RunSession_timer s) = SessionState s"
  "SocketLocked (RunSession_timer s) = SocketLocked s"
  "UMP_FIFO_TO_NET (RunSession_timer s) = UMP_FIFO_TO_NET s"
  "SessionPartnerIP (RunSession_timer s) = SessionPartnerIP s"
  "SessionPartnerPort (RunSession_timer s) = SessionPartnerPort s"
  "RemoteUDPPort (RunSession_timer s) = RemoteUDPPort s"
  "IsInitiatorNode (RunSession_timer s) = IsInitiatorNode s"
  "TimeOutRemote (RunSession_timer s) = TimeOutRemote s"
  "EndpointName (RunSession_timer s) = EndpointName s"
  "ProductInstanceID (RunSession_timer s) = ProductInstanceID s"
  "UMPSocket (RunSession_timer s) = UMPSocket s"
  by (simp_all add: RunSession_timer_def Let_def)

lemma timeout_not_opened:
  "SessionState s \<noteq> SESSION_OPENED \<Longrightarrow> RunSession_timeout s = ([], s)"
  by (simp add: RunSession_timeout_def)

lemma ParseCommands_single:
  "single_command rx c \<Longrightarrow> ParseCommands rx 4 st = DispatchCommand rx 4 st"
  by (subst ParseCommands.simps, subst ParseCommands.simps) (simp add: single_command_def Let_def)

lemma receive_single:
  "single_command rx c \<Longrightarrow>
   RunSession_receive s (Some rx) =
     DispatchCommand rx 4
       (decoder_init\<lparr>SenderIP := SenderData_addr rx, SenderPort := SenderData_port rx\<rparr>, [], s)"
  by (simp add: RunSession_receive_def ParseCommands_single) (simp add: single_command_def)

lemma RunSession_accepted:
  assumes "\<not> SocketLocked s" and "SessionState s = SESSION_INVITE"
    and "WritePtr (UMP_FIFO_TO_NET s) = ReadPtr (UMP_FIFO_TO_NET s)"
    and "single_command rx INVITATION_ACCEPTED_COMMAND"
  shows "RunSession s (Some rx) =
           Inr ([], ResetFECMemory ((RunSession_timer s)\<lparr>SessionPartnerIP := SenderData_addr rx,
                                                         SessionState := SESSION_OPENED\<rparr>))"
proof -
  let ?s1 = "RunSession_timer s"
  let ?fl = "decoder_init\<lparr>SenderIP := SenderData_addr rx, SenderPort := SenderData_port rx,
                           InvitationAccepted := True\<rparr>"
  have r2: "RunSession_timeout ?s1 = ([], ?s1)"
    using assms(2) by (simp add: timeout_not_opened timer_fields)
  have cmd: "ReceptionBuffer rx 4 = INVITATION_ACCEPTED_COMMAND"
    using assms(4) by (simp add: single_command_def)
  have r3: "RunSession_receive ?s1 (Some rx) = (?fl, [], ?s1)"
    unfolding receive_single [OF assms(4)] by (simp add: DispatchCommand_def Let_def cmd)
  have fl: "\<not> InvitationReceived ?fl" "\<not> PingReceived ?fl" "\<not> BYEReceived ?fl"
    "InvitationAccepted ?fl" "SenderIP ?fl = SenderData_addr rx"
    by (simp_all add: decoder_init_def)
  have r4: "RunSession_invitation ?fl ?s1 = ([], ?s1)"
    by (simp add: RunSession_invitation_def fl)
  have r5: "RunSession_ping ?fl ?s1 = []" by (simp add: RunSession_ping_def fl)
  have r6: "RunSession_bye ?fl ?s1 = ([], ?s1)" by (simp add: RunSession_bye_def fl)
  have g: "GenerateUMPCommand ?s1 = Inr (0, [], ?s1)"
    using assms(3) by (intro GenerateUMPCommand_empty) (simp add: timer_fields)
  have r7: "RunSession_state_machine ?fl ?s1 =
              Inr ([], ResetFECMemory (?s1\<lparr>SessionPartnerIP := SenderData_addr rx,
                                            SessionState := SESSION_OPENED\<rparr>))"
    using assms(2) by (simp add: RunSession_state_machine_def g timer_fields fl)
  show ?thesis
    using assms(1) by (simp add: RunSession_def Let_def r2 r3 r4 r5 r6 r7)
qed

lemma inviting_fields:
  "\<not> SocketLocked inviting" "SessionState inviting = SESSION_INVITE"
  "WritePtr (UMP_FIFO_TO_NET inviting) = ReadPtr (UMP_FIFO_TO_NET inviting)"
  "SessionPartnerIP inviting = 0x0A000001" "SessionPartnerPort inviting = 5004"
  "RemoteUDPPort inviting = 5004" "TimerRunning inviting" "EventTime inviting = 1"
  "EndpointName inviting = ''NetUMP''" "ProductInstanceID inviting = ''DefaultID''"
  "TimeOutRemote inviting = TIMEOUT_RESET"
  by (simp_all add: inviting_def InitiateSession_def CloseSockets_def PrepareTimerEvent_def Let_def
        fresh_def CNetUMPHandler_init_def SelectErrorCorrectionMode_def ResetFECMemory_def)

lemma accepted_rx_single: "single_command accepted_rx INVITATION_ACCEPTED_COMMAND"
  by (simp add: single_command_def accepted_rx_def buffer_of_def)

lemma Reset_fields:
  "SessionState (ResetFECMemory s) = SessionState s"
  "SessionPartnerIP (ResetFECMemory s) = SessionPartnerIP s"
  "SessionPartnerPort (ResetFECMemory s) = SessionPartnerPort s"
  "TimeOutRemote (ResetFECMemory s) = TimeOutRemote s"
  "UMPSocket (ResetFECMemory s) = UMPSocket s"
  "SocketLocked (ResetFECMemory s) = SocketLocked s"
  "UMP_FIFO_TO_NET (ResetFECMemory s) = UMP_FIFO_TO_NET s"
  by (simp_all add: ResetFECMemory_def)

text \<open>
  Claim C5.  The initiator invites 10.0.0.1:5004 and the INVITATION ACCEPTED comes from
  10.0.0.2:6000.  The session opens and \<open>SessionPartnerIP\<close> is the sender's address, but
  \<open>SessionPartnerPort\<close> is still the invited port 5004 and not the sender's port 6000.
\<close>

theorem accepted_port_not_adopted:
  "(case RunSession inviting (Some accepted_rx) of
      Inl e \<Rightarrow> False
    | Inr (evs, s') \<Rightarrow>
        SessionState s' = SESSION_OPENED \<and>
        SessionPartnerIP s' = SenderData_addr accepted_rx \<and>
        SenderData_port accepted_rx = 6000 \<and> SessionPartnerPort s' = 5004)"
  unfolding RunSession_accepted [OF inviting_fields(1,2,3) accepted_rx_single]
  by (simp add: Reset_fields timer_fields inviting_fields) (simp add: accepted_rx_def)

lemma RunSession_None:
  "\<not> SocketLocked s \<Longrightarrow>
   RunSession s None =
     (case RunSession_state_machine decoder_init (snd (RunSession_timeout (RunSession_timer s))) of
        Inl e \<Rightarrow> Inl e
      | Inr (ev7, s7) \<Rightarrow> Inr (fst (RunSession_timeout (RunSession_timer s)) @ ev7, s7))"
  by (simp add: RunSession_def RunSession_receive_def RunSession_invitation_def RunSession_ping_def
        RunSession_bye_def decoder_init_def Let_def split: sum.splits prod.splits)

lemma RunSession_invite_fires:
  assumes "\<not> SocketLocked s" and "SessionState s = SESSION_INVITE"
    and "TimerRunning s" and "EventTime s \<le> 1"
    and "WritePtr (UMP_FIFO_TO_NET s) = ReadPtr (UMP_FIFO_TO_NET s)"
  shows "\<exists>s'. RunSession s None =
                Inr ([SendTo (SessionPartnerIP s) (RemoteUDPPort s)
                        (INVITATION (EndpointName s) (ProductInstanceID s))], s') \<and>
              SessionState s' = SESSION_INVITE"
proof -
  let ?s1 = "RunSession_timer s"
  have t: "\<not> TimerRunning ?s1" "TimerEvent ?s1"
    using assms(3,4) by (auto simp: RunSession_timer_def Let_def)
  have r2: "RunSession_timeout ?s1 = ([], ?s1)"
    using assms(2) by (simp add: timeout_not_opened timer_fields)
  have g: "GenerateUMPCommand ?s1 = Inr (0, [], ?s1)"
    using assms(5) by (intro GenerateUMPCommand_empty) (simp add: timer_fields)
  have fl: "\<not> InvitationAccepted decoder_init" by (simp add: decoder_init_def)
  show ?thesis
    using assms(1,2)
    by (simp add: RunSession_None r2 RunSession_state_machine_def g timer_fields fl t Let_def
          PrepareTimerEvent_def)
qed

text \<open>
  Claim C7 as stated fails: \<open>CloseSession\<close> called in state Invite changes nothing, and
  the next tick sends an INVITATION.
\<close>

theorem CloseSession_Invite_counterexample:
  "SessionState inviting = SESSION_INVITE \<and> CloseSession inviting = ([], inviting) \<and>
   (case RunSession (snd (CloseSession inviting)) None of
      Inl e \<Rightarrow> False
    | Inr (evs, s') \<Rightarrow>
        evs = [SendTo 0x0A000001 5004 (INVITATION ''NetUMP'' ''DefaultID'')] \<and>
        list_ex is_invitation evs \<and> SessionState s' = SESSION_INVITE)"
proof -
  have c: "CloseSession inviting = ([], inviting)"
    by (simp add: CloseSession_def inviting_fields)
  obtain s' where "RunSession inviting None =
      Inr ([SendTo (SessionPartnerIP inviting) (RemoteUDPPort inviting)
             (INVITATION (EndpointName inviting) (ProductInstanceID inviting))], s')"
    and "SessionState s' = SESSION_INVITE"
    using RunSession_invite_fires [of inviting] inviting_fields by auto
  then show ?thesis by (simp add: c inviting_fields is_invitation_def)
qed


lemma Dispatch_closed:
  "SessionState (snd (snd st)) = SESSION_CLOSED \<Longrightarrow>
   snd (DispatchCommand rx p st) = snd st"
  by (simp add: DispatchCommand_def Let_def prod_eq_iff)

lemma Dispatch_flags:
  "fst st = fst st' \<Longrightarrow> fst (DispatchCommand rx p st) = fst (DispatchCommand rx p st')"
  by (simp add: DispatchCommand_def Let_def)

lemma ParseCommands_closed:
  "SessionState (snd (snd st)) = SESSION_CLOSED \<Longrightarrow> snd (ParseCommands rx p st) = snd st"
proof (induction rx p st rule: ParseCommands.induct)
  case (1 rx PtrParse st)
  show ?case
  proof (cases "int PtrParse < RecvSize rx")
    case False
    then show ?thesis by (subst ParseCommands.simps) simp
  next
    case True
    let ?n = "PtrParse + 4 + 4 * unat (ReceptionBuffer rx (PtrParse + 1))"
    have step: "ParseCommands rx PtrParse st = ParseCommands rx ?n (DispatchCommand rx PtrParse st)"
      using True by (subst ParseCommands.simps) (simp add: Let_def)
    have d: "snd (DispatchCommand rx PtrParse st) = snd st"
      using "1.prems" by (rule Dispatch_closed)
    have "snd (ParseCommands rx ?n (DispatchCommand rx PtrParse st)) =
          snd (DispatchCommand rx PtrParse st)"
      using "1.prems" by (intro "1.IH" [OF True refl]) (simp add: d)
    then show ?thesis by (simp only: step d)
  qed
qed

lemma ParseCommands_flags:
  "fst st = fst st' \<Longrightarrow> fst (ParseCommands rx p st) = fst (ParseCommands rx p st')"
proof (induction rx p st arbitrary: st' rule: ParseCommands.induct)
  case (1 rx PtrParse st)
  show ?case
  proof (cases "int PtrParse < RecvSize rx")
    case False
    then have "ParseCommands rx PtrParse st = st" "ParseCommands rx PtrParse st' = st'"
      by (subst ParseCommands.simps, simp)+
    then show ?thesis using "1.prems" by simp
  next
    case True
    let ?n = "PtrParse + 4 + 4 * unat (ReceptionBuffer rx (PtrParse + 1))"
    have step: "ParseCommands rx PtrParse x = ParseCommands rx ?n (DispatchCommand rx PtrParse x)"
      for x using True by (subst ParseCommands.simps) (simp add: Let_def)
    have "fst (ParseCommands rx ?n (DispatchCommand rx PtrParse st)) =
          fst (ParseCommands rx ?n (DispatchCommand rx PtrParse st'))"
      by (rule "1.IH" [OF True refl Dispatch_flags [OF "1.prems"]])
    then show ?thesis by (simp only: step)
  qed
qed

lemma receive_closed:
  "SessionState s = SESSION_CLOSED \<Longrightarrow> snd (RunSession_receive s DataAvail) = ([], s)"
  by (simp add: RunSession_receive_def ParseCommands_closed split: option.splits)

lemma receive_flags:
  "fst (RunSession_receive s DataAvail) = fst (RunSession_receive s' DataAvail)"
  by (auto simp: RunSession_receive_def intro: ParseCommands_flags split: option.splits)

lemma RunSession_closed:
  assumes "SessionState s = SESSION_CLOSED"
    and "\<not> BYEReceived (fst (RunSession_receive s DataAvail))"
  shows "\<exists>evs s'. RunSession s DataAvail = Inr (evs, s') \<and> SessionState s' = SESSION_CLOSED \<and>
                   \<not> list_ex is_invitation evs"
proof (cases "SocketLocked s")
  case True
  then show ?thesis using assms(1) by (simp add: RunSession_def)
next
  case False
  let ?s1 = "RunSession_timer s"
  let ?fl = "fst (RunSession_receive ?s1 DataAvail)"
  have c1: "SessionState ?s1 = SESSION_CLOSED" using assms(1) by (simp add: timer_fields)
  have r2: "RunSession_timeout ?s1 = ([], ?s1)" using c1 by (simp add: timeout_not_opened)
  have r3: "snd (RunSession_receive ?s1 DataAvail) = ([], ?s1)" using c1 by (rule receive_closed)
  have fl: "\<not> BYEReceived ?fl" using assms(2) receive_flags [of ?s1 DataAvail s] by simp
  have r4: "snd (RunSession_invitation ?fl ?s1) = ?s1"
    "\<not> list_ex is_invitation (fst (RunSession_invitation ?fl ?s1))"
    using c1 by (simp_all add: RunSession_invitation_def is_invitation_def)
  have r5: "\<not> list_ex is_invitation (RunSession_ping ?fl ?s1)"
    by (simp add: RunSession_ping_def is_invitation_def)
  have r6: "RunSession_bye ?fl ?s1 = ([], ?s1)" using fl by (simp add: RunSession_bye_def)
  have r7: "RunSession_state_machine ?fl ?s1 = Inr ([], ?s1)"
    using c1 by (simp add: RunSession_state_machine_def)
  have "RunSession s DataAvail =
          Inr (fst (RunSession_invitation ?fl ?s1) @ RunSession_ping ?fl ?s1, ?s1)"
    using False by (simp add: RunSession_def Let_def r2 r3 r4 r6 r7)
  then show ?thesis using c1 r4(2) r5 by simp
qed

text \<open>
  Claim C7, as amended.  In state Opened \<open>CloseSession\<close> sends BYE (user terminated) to
  the partner, sleeps 50 ms and leaves the state Closed; in every other state it does
  nothing.  It never touches the socket.  A closed endpoint stays closed and sends no
  INVITATION on a tick on which no BYE command arrives.
\<close>

theorem CloseSession_spec:
  "(SessionState s = SESSION_OPENED \<longrightarrow>
      CloseSession s =
        ([SendTo (SessionPartnerIP s) (SessionPartnerPort s) (BYE BYE_USER_TERMINATED), Sleep 50],
         s\<lparr>SessionState := SESSION_CLOSED\<rparr>)) \<and>
   (SessionState s \<noteq> SESSION_OPENED \<longrightarrow> CloseSession s = ([], s)) \<and>
   UMPSocket (snd (CloseSession s)) = UMPSocket s \<and>
   (SessionState c = SESSION_CLOSED \<longrightarrow> \<not> BYEReceived (fst (RunSession_receive c DataAvail)) \<longrightarrow>
      (\<exists>evs c'. RunSession c DataAvail = Inr (evs, c') \<and> SessionState c' = SESSION_CLOSED \<and>
                 \<not> list_ex is_invitation evs))"
  using RunSession_closed [of c DataAvail] by (simp add: CloseSession_def)


lemma opened_run: "RunSession inviting (Some accepted_rx) = Inr ([], opened)"
  unfolding RunSession_accepted [OF inviting_fields(1,2,3) accepted_rx_single] opened_def
  by (simp add: accepted_rx_def)

lemma opened_reach: "reach opened"
proof -
  have "reach fresh" unfolding fresh_def by (rule reach_init)
  then have "reach inviting" unfolding inviting_def by (rule reach_InitiateSession)
  then show ?thesis using opened_run by (rule reach_RunSession)
qed

lemma opened_fields:
  "SessionState opened = SESSION_OPENED" "SessionPartnerIP opened = 0x0A000002"
  "SessionPartnerPort opened = 5004" "UMPSocket opened" "\<not> SocketLocked opened"
  by (simp_all add: opened_def Reset_fields timer_fields inviting_fields)
     (simp add: inviting_def InitiateSession_def CloseSockets_def PrepareTimerEvent_def Let_def)

text \<open>
  The opened session is closed and ticks once with nothing on the socket; the inviting
  endpoint is left as it was.
\<close>

theorem CloseSession_spec_witness:
  "SessionState opened = SESSION_OPENED \<and>
   CloseSession opened =
     ([SendTo 0x0A000002 5004 (BYE BYE_USER_TERMINATED), Sleep 50],
      opened\<lparr>SessionState := SESSION_CLOSED\<rparr>) \<and>
   SessionState inviting \<noteq> SESSION_OPENED \<and> CloseSession inviting = ([], inviting) \<and>
   UMPSocket (snd (CloseSession opened)) \<and>
   SessionState (snd (CloseSession opened)) = SESSION_CLOSED \<and>
   \<not> BYEReceived (fst (RunSession_receive (snd (CloseSession opened)) None)) \<and>
   (case RunSession (snd (CloseSession opened)) None of
      Inl e \<Rightarrow> False
    | Inr (evs, c') \<Rightarrow> SessionState c' = SESSION_CLOSED \<and> \<not> list_ex is_invitation evs)"
proof -
  have b: "\<not> BYEReceived (fst (RunSession_receive c None))" for c
    by (simp add: RunSession_receive_def decoder_init_def)
  have c: "SessionState (snd (CloseSession opened)) = SESSION_CLOSED"
    by (simp add: CloseSession_def opened_fields)
  show ?thesis
    using CloseSession_spec [of opened "snd (CloseSession opened)" None]
      CloseSession_spec [of inviting "snd (CloseSession opened)" None] b c
    by (auto simp: opened_fields inviting_fields)
qed

end
